theory Spec2Isabelle
  imports Complex_Main "HOL-Library.Char_ord" "HOL-Library.List_Lexorder"
begin

section \<open>Values\<close>

subsection \<open>Decimal\<close>

text \<open>
  A Python \<open>Decimal\<close> is modelled by its numeric value, a rational number. The arithmetic
  of \<open>Expense.save\<close> (a product, a quotient by 100 and a sum) is exact in Python's default
  context of 28 significant digits for every value that the fields accept
  (\<open>amount\<close>: \<open>max_digits=10\<close>, \<open>tax_rate\<close>: \<open>max_digits=5\<close>, two decimal places each),
  so that \<open>quantize\<close> is the only operation that rounds. The sources never change the
  context, whose rounding mode is \<open>ROUND_HALF_EVEN\<close>. Truth of a \<open>Decimal\<close> is
  \<open>x \<noteq> 0\<close>; comparison is numeric.
\<close>

type_synonym decimal = rat

definition round_half_even :: "rat \<Rightarrow> int" where
  "round_half_even y =
     (let f = \<lfloor>y\<rfloor>; r = y - of_int f
      in if r < 1 / 2 then f
         else if 1 / 2 < r then f + 1
         else if even f then f else f + 1)"

text \<open>\<open>x.quantize(Decimal('0.01'))\<close> is \<open>quantize x 2\<close>.\<close>

definition quantize :: "decimal \<Rightarrow> nat \<Rightarrow> decimal" where
  "quantize x places = of_int (round_half_even (x * 10 ^ places)) / 10 ^ places"

subsection \<open>Dates and times\<close>

text \<open>As in Python, a \<open>datetime\<close> is a \<open>date\<close> with more fields.\<close>

record date =
  year :: nat
  month :: nat
  day :: nat

record datetime = date +
  hour :: nat
  minute :: nat
  second :: nat

definition date_le :: "'a date_scheme \<Rightarrow> 'b date_scheme \<Rightarrow> bool" where
  "date_le a b \<longleftrightarrow>
     year a < year b \<or>
     (year a = year b \<and> (month a < month b \<or> (month a = month b \<and> day a \<le> day b)))"

subsection \<open>Strings\<close>

definition digit_char :: "nat \<Rightarrow> char" where
  "digit_char d = ''0123456789'' ! d"

text \<open>The decimal digits of a natural number, as \<open>str(n)\<close> gives them.\<close>

fun digits :: "nat \<Rightarrow> string" where
  "digits n = (if n < 10 then [digit_char n] else digits (n div 10) @ [digit_char (n mod 10)])"

declare digits.simps [simp del]

definition zfill :: "nat \<Rightarrow> string \<Rightarrow> string" where
  "zfill width s = replicate (width - length s) CHR ''0'' @ s"

text \<open>\<open>'%Y%m%d'\<close>: the year on four digits, month and day on two.\<close>

definition strftime_Ymd :: "'a date_scheme \<Rightarrow> string" where
  "strftime_Ymd d = zfill 4 (digits (year d)) @ zfill 2 (digits (month d)) @ zfill 2 (digits (day d))"

text \<open>The format specification \<open>04d\<close>: the sign counts in the width.\<close>

definition format_04d :: "int \<Rightarrow> string" where
  "format_04d n =
     (if n < 0 then CHR ''-'' # zfill 3 (digits (nat (- n))) else zfill 4 (digits (nat n)))"

definition startswith :: "string \<Rightarrow> string \<Rightarrow> bool" where
  "startswith s p \<longleftrightarrow> take (length p) s = p"

text \<open>\<open>s.split(sep)\<close> for a separator of one character: never an empty list.\<close>

fun split :: "char \<Rightarrow> string \<Rightarrow> string list" where
  "split sep [] = [[]]"
| "split sep (c # cs) =
     (if c = sep then [] # split sep cs
      else (case split sep cs of [] \<Rightarrow> [[c]] | w # ws \<Rightarrow> (c # w) # ws))"

datatype error =
    ValueError
  | IndexError
  | Http404
  | MultipleObjectsReturned
  | DoesNotExist
  | DatabaseError

text \<open>
  \<open>int(s)\<close> in base 10 on ASCII text: white space around the literal (space, tab, line
  feed, vertical tab, form feed, carriage return) is dropped, one sign is allowed, and
  single underscores may stand between digits. Anything else, the separators
  \<open>U+001C\<close> to \<open>U+001F\<close> included, raises \<open>ValueError\<close>.
\<close>

definition is_space :: "char \<Rightarrow> bool" where
  "is_space c \<longleftrightarrow> c \<in> set [CHR '' '', CHR 0x09, CHR 0x0A, CHR 0x0B, CHR 0x0C, CHR 0x0D]"

definition is_digit :: "char \<Rightarrow> bool" where
  "is_digit c \<longleftrightarrow> c \<in> set ''0123456789''"

definition digit_value :: "char \<Rightarrow> nat" where
  "digit_value c = of_char c - 48"

definition strip :: "string \<Rightarrow> string" where
  "strip s = rev (dropWhile is_space (rev (dropWhile is_space s)))"

fun int_digits :: "nat \<Rightarrow> string \<Rightarrow> error + nat" where
  "int_digits acc [] = Inr acc"
| "int_digits acc [c] = (if is_digit c then Inr (10 * acc + digit_value c) else Inl ValueError)"
| "int_digits acc (c # d # cs) =
     (if is_digit c then int_digits (10 * acc + digit_value c) (d # cs)
      else if c = CHR ''_'' \<and> is_digit d then int_digits (10 * acc + digit_value d) cs
      else Inl ValueError)"

definition int_literal :: "string \<Rightarrow> error + nat" where
  "int_literal s =
     (case s of
        [] \<Rightarrow> Inl ValueError
      | c # cs \<Rightarrow> if is_digit c then int_digits (digit_value c) cs else Inl ValueError)"

definition py_int :: "string \<Rightarrow> error + int" where
  "py_int s =
     (case strip s of
        [] \<Rightarrow> Inl ValueError
      | c # cs \<Rightarrow>
          if c = CHR ''-'' then map_sum id (\<lambda>n. - int n) (int_literal cs)
          else if c = CHR ''+'' then map_sum id int (int_literal cs)
          else map_sum id int (int_literal (c # cs)))"


section \<open>Data model\<close>

text \<open>
  Every model class extends \<open>HubBaseModel\<close> of the hub platform, which gives it a primary
  key, the tenant's \<open>hub_id\<close> and the soft-delete flag: the manager \<open>objects\<close> hides the
  rows marked deleted, \<open>all_objects\<close> shows every row. Fields that no operation of the core
  reads (descriptions, notes, contact data, the receipt image) are left out, and so is the
  base model's \<open>updated_at\<close>. The amounts are not nullable. The status is a text field:
  its choices are not enforced by a save, so that any string can be stored. A foreign key
  is the primary key of the row it names, if any.
\<close>

record hub_base =
  pk :: nat
  hub_id :: nat
  is_deleted :: bool

record expense_settings =
  settings_hub_id :: nat
  require_approval :: bool
  approval_threshold :: decimal
  default_tax_rate :: decimal
  default_currency :: string
  auto_numbering :: bool
  number_prefix :: string

record supplier = hub_base +
  name :: string
  is_active :: bool
  total_spent :: decimal
  last_purchase_date :: "date option"

record expense = hub_base +
  expense_number :: string
  title :: string
  category_id :: "nat option"
  supplier_id :: "nat option"
  amount :: decimal
  tax_rate :: decimal
  tax_amount :: decimal
  total_amount :: decimal
  expense_date :: date
  status :: string
  approved_by :: "nat option"
  approved_at :: "datetime option"
  paid_at :: "datetime option"

text \<open>The tables of the database, and the users of the accounts application.\<close>

record db =
  settings_rows :: "expense_settings list"
  suppliers :: "supplier list"
  expenses :: "expense list"
  local_users :: "nat list"

definition objects :: "'a hub_base_scheme list \<Rightarrow> 'a hub_base_scheme list" where
  "objects rows = filter (\<lambda>r. \<not> is_deleted r) rows"

definition all_objects :: "'a hub_base_scheme list \<Rightarrow> 'a hub_base_scheme list" where
  "all_objects rows = rows"

text \<open>\<open>QuerySet.first()\<close>.\<close>

definition first :: "'a list \<Rightarrow> 'a option" where
  "first rows = (case rows of [] \<Rightarrow> None | r # _ \<Rightarrow> Some r)"

text \<open>
  \<open>order_by('-expense_number')\<close>: the rows by descending number, in the order of the
  character codes. Which of two rows with the same number comes first is left open by the
  database; here it is the later row of the table.
\<close>

definition order_by_expense_number_desc :: "expense list \<Rightarrow> expense list" where
  "order_by_expense_number_desc rows = rev (sort_key expense_number rows)"

section \<open>Settings\<close>

definition default_settings :: "nat \<Rightarrow> expense_settings" where
  "default_settings hub =
     \<lparr>settings_hub_id = hub, require_approval = False, approval_threshold = 0,
      default_tax_rate = 21, default_currency = ''EUR'', auto_numbering = True,
      number_prefix = ''EXP''\<rparr>"

text \<open>
  \<open>ExpenseSettings.get_settings\<close> is \<open>get_or_create(hub_id=hub_id)\<close>: the tenant's row, a
  new row of defaults when there is none, and an exception when there are several.
\<close>

definition get_settings :: "db \<Rightarrow> nat \<Rightarrow> error + expense_settings \<times> db" where
  "get_settings d hub =
     (case filter (\<lambda>s. settings_hub_id s = hub) (settings_rows d) of
        [] \<Rightarrow> Inr (default_settings hub,
                  d\<lparr>settings_rows := settings_rows d @ [default_settings hub]\<rparr>)
      | [s] \<Rightarrow> Inr (s, d)
      | _ \<Rightarrow> Inl MultipleObjectsReturned)"

section \<open>Expense numbers\<close>

text \<open>\<open>int(number.split('-')[-1])\<close>.\<close>

definition last_number :: "string \<Rightarrow> error + int" where
  "last_number number =
     (case split CHR ''-'' number of
        [] \<Rightarrow> Inl IndexError
      | parts \<Rightarrow> py_int (last parts))"

text \<open>
  \<open>Expense.generate_expense_number\<close>. The current time \<open>timezone.now()\<close> is the argument
  \<open>today\<close>.
\<close>

definition generate_expense_number :: "db \<Rightarrow> nat \<Rightarrow> string \<Rightarrow> 'a date_scheme \<Rightarrow> string" where
  "generate_expense_number d hub prefix today =
     (let date_part = strftime_Ymd today;
          full_prefix = prefix @ ''-'' @ date_part;
          last_expense = first (order_by_expense_number_desc
            (filter (\<lambda>e. hub_id e = hub \<and> startswith (expense_number e) full_prefix)
               (all_objects (expenses d))));
          new_num = (case last_expense of
                       Some e \<Rightarrow> (case last_number (expense_number e) of
                                    Inr last_num \<Rightarrow> last_num + 1
                                  | Inl _ \<Rightarrow> 1)
                     | None \<Rightarrow> 1)
      in full_prefix @ ''-'' @ format_04d new_num)"

section \<open>Saving\<close>

text \<open>
  The save of the base model writes the row of that primary key, or inserts it when there
  is none. With \<open>update_fields\<close> only the named fields are written, and a missing row is an
  error.
\<close>

datatype expense_field = Status | Approved_by | Approved_at | Paid_at | Updated_at

fun write_expense_field :: "expense \<Rightarrow> expense_field \<Rightarrow> expense \<Rightarrow> expense" where
  "write_expense_field self Status row = row\<lparr>status := status self\<rparr>"
| "write_expense_field self Approved_by row = row\<lparr>approved_by := approved_by self\<rparr>"
| "write_expense_field self Approved_at row = row\<lparr>approved_at := approved_at self\<rparr>"
| "write_expense_field self Paid_at row = row\<lparr>paid_at := paid_at self\<rparr>"
| "write_expense_field self Updated_at row = row"

definition base_save_expense :: "expense \<Rightarrow> expense_field list option \<Rightarrow> db \<Rightarrow> error + db" where
  "base_save_expense self update_fields d =
     (case update_fields of
        None \<Rightarrow>
          if pk self \<in> set (map pk (expenses d))
          then Inr (d\<lparr>expenses := map (\<lambda>row. if pk row = pk self then self else row) (expenses d)\<rparr>)
          else Inr (d\<lparr>expenses := expenses d @ [self]\<rparr>)
      | Some names \<Rightarrow>
          if pk self \<in> set (map pk (expenses d))
          then Inr (d\<lparr>expenses :=
                 map (\<lambda>row. if pk row = pk self then fold (write_expense_field self) names row
                            else row) (expenses d)\<rparr>)
          else Inl DatabaseError)"

text \<open>
  \<open>Expense.save\<close> has three parts: the block under the comment
  \<open>Auto-calculate tax and total\<close>, the block under \<open>Auto-generate expense number\<close>, and
  the save of the base model. The clock is read once for a request: \<open>now\<close> is the value
  of every \<open>timezone.now()\<close> in it. The result is the saved object or the exception
  raised, beside the database as the call leaves it.
\<close>

definition calculate_tax_and_total :: "expense \<Rightarrow> expense" where
  "calculate_tax_and_total self =
     (if amount self \<noteq> 0
      then (let tax = quantize (amount self * tax_rate self / 100) 2
            in self\<lparr>tax_amount := tax, total_amount := quantize (amount self + tax) 2\<rparr>)
      else self)"

definition number_prefix_for :: "db \<Rightarrow> nat \<Rightarrow> string \<times> db" where
  "number_prefix_for d hub =
     (case get_settings d hub of
        Inr (settings, d') \<Rightarrow>
          (if auto_numbering settings
           then (if number_prefix settings \<noteq> [] then number_prefix settings else ''EXP'')
           else ''EXP'', d')
      | Inl _ \<Rightarrow> (''EXP'', d))"

definition auto_generate_number :: "expense \<Rightarrow> datetime \<Rightarrow> db \<Rightarrow> expense \<times> db" where
  "auto_generate_number self now d =
     (if expense_number self = []
      then (let (prefix, d') = number_prefix_for d (hub_id self)
            in (self\<lparr>expense_number := generate_expense_number d' (hub_id self) prefix now\<rparr>,
                d'))
      else (self, d))"

definition expense_save ::
  "expense \<Rightarrow> expense_field list option \<Rightarrow> datetime \<Rightarrow> db \<Rightarrow> (error + expense) \<times> db" where
  "expense_save self update_fields now d =
     (let self1 = calculate_tax_and_total self;
          (self2, d1) = auto_generate_number self1 now d
      in case base_save_expense self2 update_fields d1 of
           Inl err \<Rightarrow> (Inl err, d1)
         | Inr d2 \<Rightarrow> (Inr self2, d2))"

section \<open>Supplier totals\<close>

text \<open>\<open>Max('expense_date')\<close>: no value over no rows.\<close>

fun max_date :: "date list \<Rightarrow> date option" where
  "max_date [] = None"
| "max_date (x # xs) =
     (case max_date xs of
        None \<Rightarrow> Some x
      | Some m \<Rightarrow> if date_le m x then Some x else Some m)"

text \<open>\<open>Sum('total_amount')\<close>: no value over no rows.\<close>

definition sum_total_amount :: "expense list \<Rightarrow> decimal option" where
  "sum_total_amount rows = (if rows = [] then None else Some (sum_list (map total_amount rows)))"

text \<open>
  The supplier's \<open>save(update_fields=['total_spent', 'last_purchase_date', 'updated_at'])\<close>.
\<close>

definition base_save_supplier_totals :: "supplier \<Rightarrow> db \<Rightarrow> error + db" where
  "base_save_supplier_totals self d =
     (if pk self \<in> set (map pk (suppliers d))
      then Inr (d\<lparr>suppliers :=
             map (\<lambda>row. if pk row = pk self
                        then row\<lparr>total_spent := total_spent self,
                                 last_purchase_date := last_purchase_date self\<rparr>
                        else row) (suppliers d)\<rparr>)
      else Inl DatabaseError)"

text \<open>
  \<open>Supplier.update_totals\<close>. The related manager \<open>self.expenses\<close> gives the expenses whose
  supplier is this one.
\<close>

definition update_totals :: "supplier \<Rightarrow> db \<Rightarrow> (error + supplier) \<times> db" where
  "update_totals self d =
     (let qs = filter (\<lambda>e. is_deleted e = False \<and> status e = ''paid'')
                 (filter (\<lambda>e. supplier_id e = Some (pk self)) (objects (expenses d)));
          agg_total = sum_total_amount qs;
          agg_last_date = max_date (map expense_date qs);
          self' = self\<lparr>total_spent := (case agg_total of
                                          Some t \<Rightarrow> if t \<noteq> 0 then t else 0
                                        | None \<Rightarrow> 0),
                       last_purchase_date := agg_last_date\<rparr>
      in case base_save_supplier_totals self' d of
           Inl err \<Rightarrow> (Inl err, d)
         | Inr d' \<Rightarrow> (Inr self', d'))"

section \<open>Views\<close>

text \<open>
  A request carries the session; \<open>hub_id_of\<close> and \<open>employee_of\<close> are the helpers
  \<open>_hub_id\<close> and \<open>_employee\<close>. The decorators (\<open>login_required\<close>, the POST method) have
  let the request through. A view answers \<open>{'success': True}\<close>, or \<open>{'success': False}\<close> with a
  message, or, from its \<open>except Exception\<close>, \<open>{'success': False}\<close> with status 400.
\<close>

record request =
  session_hub_id :: "nat option"
  session_local_user_id :: "nat option"

datatype response = Success | Declined string | Failed error

definition hub_id_of :: "request \<Rightarrow> nat option" where
  "hub_id_of request = session_hub_id request"

definition employee_of :: "db \<Rightarrow> request \<Rightarrow> nat option" where
  "employee_of d request =
     (case session_local_user_id request of
        None \<Rightarrow> None
      | Some uid \<Rightarrow> if uid \<in> set (local_users d) then Some uid else None)"

text \<open>\<open>get_object_or_404(Expense, id=pk, hub_id=hub, is_deleted=False)\<close>.\<close>

definition get_expense_or_404 :: "db \<Rightarrow> nat \<Rightarrow> nat option \<Rightarrow> error + expense" where
  "get_expense_or_404 d key hub =
     (case filter (\<lambda>e. pk e = key \<and> Some (hub_id e) = hub \<and> is_deleted e = False)
             (objects (expenses d)) of
        [] \<Rightarrow> Inl Http404
      | [e] \<Rightarrow> Inr e
      | _ \<Rightarrow> Inl MultipleObjectsReturned)"

text \<open>Reading \<open>expense.supplier\<close> loads the row of the foreign key.\<close>

definition get_supplier :: "db \<Rightarrow> nat \<Rightarrow> error + supplier" where
  "get_supplier d sid =
     (case filter (\<lambda>s. pk s = sid) (all_objects (suppliers d)) of
        [] \<Rightarrow> Inl DoesNotExist
      | s # _ \<Rightarrow> Inr s)"

definition expense_approve :: "request \<Rightarrow> nat \<Rightarrow> datetime \<Rightarrow> db \<Rightarrow> response \<times> db" where
  "expense_approve request key now d =
     (let hub = hub_id_of request;
          employee = employee_of d request
      in case get_expense_or_404 d key hub of
           Inl err \<Rightarrow> (Failed err, d)
         | Inr expense \<Rightarrow>
             if status expense \<notin> set [''draft'', ''pending'']
             then (Declined ''Only draft or pending expenses can be approved.'', d)
             else (case expense_save
                          (expense\<lparr>status := ''approved'', approved_by := employee,
                                   approved_at := Some now\<rparr>)
                          (Some [Status, Approved_by, Approved_at, Updated_at]) now d of
                     (Inl err, d') \<Rightarrow> (Failed err, d')
                   | (Inr _, d') \<Rightarrow> (Success, d')))"

text \<open>
  In \<open>expense_mark_paid\<close> the settings are read for the session's hub, which is the hub of
  the expense just found.
\<close>

definition expense_mark_paid :: "request \<Rightarrow> nat \<Rightarrow> datetime \<Rightarrow> db \<Rightarrow> response \<times> db" where
  "expense_mark_paid request key now d =
     (let hub = hub_id_of request
      in case get_expense_or_404 d key hub of
           Inl err \<Rightarrow> (Failed err, d)
         | Inr expense \<Rightarrow>
             (case get_settings d (hub_id expense) of
                Inl err \<Rightarrow> (Failed err, d)
              | Inr (settings, d1) \<Rightarrow>
                  if require_approval settings \<and> status expense \<notin> set [''approved''] \<and>
                     (approval_threshold settings < total_amount expense \<or>
                      approval_threshold settings = 0)
                  then (Declined
                    ''This expense requires approval before it can be marked as paid.'', d1)
                  else (case expense_save (expense\<lparr>status := ''paid'', paid_at := Some now\<rparr>)
                               (Some [Status, Paid_at, Updated_at]) now d1 of
                          (Inl err, d2) \<Rightarrow> (Failed err, d2)
                        | (Inr expense', d2) \<Rightarrow>
                            (case supplier_id expense' of
                               None \<Rightarrow> (Success, d2)
                             | Some sid \<Rightarrow>
                                 (case get_supplier d2 sid of
                                    Inl err \<Rightarrow> (Failed err, d2)
                                  | Inr s \<Rightarrow>
                                      (case update_totals s d2 of
                                         (Inl err, d3) \<Rightarrow> (Failed err, d3)
                                       | (Inr _, d3) \<Rightarrow> (Success, d3)))))))"

section \<open>Notions of the specification\<close>

text \<open>The database holds \<open>e\<close> as the row of its primary key.\<close>

definition persisted :: "db \<Rightarrow> expense \<Rightarrow> bool" where
  "persisted d e \<longleftrightarrow> e \<in> set (expenses d) \<and> list_all (\<lambda>row. pk row = pk e \<longrightarrow> row = e) (expenses d)"

text \<open>
  A history of an expense: each step edits fields of the object in memory and saves it at
  some time, in full as the create and edit forms do, or with \<open>update_fields\<close> as the
  actions do. The history ends at the first save that raises.
\<close>

fun save_each ::
  "((expense \<Rightarrow> expense) \<times> expense_field list option \<times> datetime) list \<Rightarrow> expense \<Rightarrow> db \<Rightarrow>
     (error + expense) \<times> db" where
  "save_each [] self d = (Inr self, d)"
| "save_each ((edit, update_fields, now) # steps) self d =
     (case expense_save (edit self) update_fields now d of
        (Inl err, d') \<Rightarrow> (Inl err, d')
      | (Inr self', d') \<Rightarrow> save_each steps self' d')"

text \<open>
  The invariant of the derived amounts, with \<open>round(x, 2)\<close> read as Python computes it on
  a \<open>Decimal\<close>, which is \<open>quantize\<close>.
\<close>

definition amounts_derived :: "expense \<Rightarrow> bool" where
  "amounts_derived e \<longleftrightarrow>
     tax_amount e = quantize (amount e * tax_rate e / 100) 2 \<and>
     total_amount e = quantize (amount e + tax_amount e) 2"

text \<open>Every stored expense with an amount other than zero satisfies the invariant.\<close>

definition amounts_hold :: "db \<Rightarrow> bool" where
  "amounts_hold d \<longleftrightarrow> list_all (\<lambda>e. amount e = 0 \<or> amounts_derived e) (expenses d)"

text \<open>
  \<open>q\<close> is \<open>x\<close> rounded to cents, half to even: a whole number of cents, at most half a
  cent from \<open>x\<close>, and an even number of cents when \<open>x\<close> lies exactly between two.
\<close>

definition half_even_cents :: "decimal \<Rightarrow> decimal \<Rightarrow> bool" where
  "half_even_cents x q \<longleftrightarrow>
     of_int \<lfloor>q * 100\<rfloor> = q * 100 \<and> \<bar>q - x\<bar> \<le> 1 / 200 \<and>
     (\<bar>q - x\<bar> = 1 / 200 \<longrightarrow> even \<lfloor>q * 100\<rfloor>)"

text \<open>An edit that leaves the primary key and the expense number alone.\<close>

definition keeps_number :: "(expense \<Rightarrow> expense) \<Rightarrow> bool" where
  "keeps_number edit \<longleftrightarrow> (\<forall>x. pk (edit x) = pk x \<and> expense_number (edit x) = expense_number x)"

text \<open>Every stored row of the primary key \<open>key\<close> has the expense number \<open>n\<close>.\<close>

definition number_stored :: "db \<Rightarrow> nat \<Rightarrow> string \<Rightarrow> bool" where
  "number_stored d key n \<longleftrightarrow> list_all (\<lambda>row. pk row \<noteq> key \<or> expense_number row = n) (expenses d)"

text \<open>The supplier's expenses that count: not deleted, and paid.\<close>

definition paid_expenses_of :: "db \<Rightarrow> nat \<Rightarrow> expense list" where
  "paid_expenses_of d sid =
     filter (\<lambda>e. supplier_id e = Some sid \<and> \<not> is_deleted e \<and> status e = ''paid'') (expenses d)"

text \<open>\<open>r\<close> is the latest of the dates \<open>ds\<close>: one of them, with none after it; nothing when there are none.\<close>

definition latest_of :: "date list \<Rightarrow> date option \<Rightarrow> bool" where
  "latest_of ds r \<longleftrightarrow>
     (case r of None \<Rightarrow> ds = [] | Some m \<Rightarrow> m \<in> set ds \<and> list_all (\<lambda>x. date_le x m) ds)"

text \<open>The expense has no supplier, or its supplier has a row.\<close>

definition supplier_known :: "db \<Rightarrow> expense \<Rightarrow> bool" where
  "supplier_known d e \<longleftrightarrow>
     (case supplier_id e of None \<Rightarrow> True | Some sid \<Rightarrow> sid \<in> set (map pk (suppliers d)))"

text \<open>The key of a tenant's numbers for a prefix and a day: \<open>{prefix}-{YYYYMMDD}\<close>.\<close>

definition period_key :: "string \<Rightarrow> 'a date_scheme \<Rightarrow> string" where
  "period_key prefix today = prefix @ ''-'' @ strftime_Ymd today"

text \<open>The expense numbers of the tenant, deleted expenses included, that start with the key.\<close>

definition numbers_with_key :: "db \<Rightarrow> nat \<Rightarrow> string \<Rightarrow> string list" where
  "numbers_with_key d hub key =
     map expense_number (filter (\<lambda>e. hub_id e = hub \<and> startswith (expense_number e) key) (expenses d))"

text \<open>The value of a text of decimal digits.\<close>

definition decimal_value :: "string \<Rightarrow> nat" where
  "decimal_value ds = foldl (\<lambda>a c. 10 * a + digit_value c) 0 ds"

text \<open>
  A number of the form that the generator gives up to 9999: the key, a dash and a sequence
  of four digits; and the sequence of such a number.
\<close>

definition four_digit_sequence :: "string \<Rightarrow> string \<Rightarrow> bool" where
  "four_digit_sequence key number \<longleftrightarrow>
     take (length key + 1) number = key @ ''-'' \<and> length number = length key + 5 \<and>
     list_all is_digit (drop (length key + 1) number)"

definition sequence_of :: "string \<Rightarrow> string \<Rightarrow> nat" where
  "sequence_of key number = decimal_value (drop (length key + 1) number)"

section \<open>Example data\<close>

definition jan5 :: datetime where
  "jan5 = \<lparr>year = 2024, month = 1, day = 5, hour = 10, minute = 30, second = 0\<rparr>"

definition paper :: expense where
  "paper = \<lparr>pk = 1, hub_id = 7, is_deleted = False, expense_number = [], title = ''Office Paper'',
     category_id = None, supplier_id = Some 3, amount = 100, tax_rate = 21, tax_amount = 0,
     total_amount = 0, expense_date = \<lparr>year = 2024, month = 1, day = 4\<rparr>, status = ''draft'',
     approved_by = None, approved_at = None, paid_at = None\<rparr>"

definition acme :: supplier where
  "acme = \<lparr>pk = 3, hub_id = 7, is_deleted = False, name = ''ACME'', is_active = True,
     total_spent = 0, last_purchase_date = None\<rparr>"

definition empty_db :: db where
  "empty_db = \<lparr>settings_rows = [], suppliers = [acme], expenses = [], local_users = [5]\<rparr>"

definition paper_saved :: expense where
  "paper_saved = paper\<lparr>expense_number := ''EXP-20240105-0001'', tax_amount := 21, total_amount := 121\<rparr>"

definition gasto_off :: expense_settings where
  "gasto_off = (default_settings 7)\<lparr>auto_numbering := False, number_prefix := ''GASTO''\<rparr>"

definition db_gasto_off :: db where
  "db_gasto_off = empty_db\<lparr>settings_rows := [gasto_off]\<rparr>"

definition half_euro :: expense where
  "half_euro = paper\<lparr>amount := 1 / 2\<rparr>"

definition db_with_paper :: db where
  "db_with_paper = empty_db\<lparr>settings_rows := [default_settings 7], expenses := [paper_saved]\<rparr>"

definition paper_at_10 :: expense where
  "paper_at_10 = paper_saved\<lparr>tax_rate := 10, tax_amount := 10, total_amount := 110, status := ''approved''\<rparr>"

definition later_saves :: "((expense \<Rightarrow> expense) \<times> expense_field list option \<times> datetime) list" where
  "later_saves = [(\<lambda>e. e\<lparr>tax_rate := 10\<rparr>, None, jan5),
                  (\<lambda>e. e\<lparr>status := ''approved''\<rparr>, Some [Status, Updated_at], jan5)]"

definition half_euro_saved :: expense where
  "half_euro_saved = half_euro\<lparr>expense_number := ''EXP-20240105-0001'', tax_amount := 1 / 10,
     total_amount := 3 / 5\<rparr>"

definition db_with_half_euro :: db where
  "db_with_half_euro = empty_db\<lparr>settings_rows := [default_settings 7], expenses := [half_euro_saved]\<rparr>"

definition clerk :: request where
  "clerk = \<lparr>session_hub_id = Some 7, session_local_user_id = Some 5\<rparr>"

definition paper_paid :: expense where
  "paper_paid = paper_saved\<lparr>status := ''paid'', paid_at := Some jan5\<rparr>"

definition db_paper_paid :: db where
  "db_paper_paid = db_with_paper\<lparr>
     suppliers := [acme\<lparr>total_spent := 121,
                         last_purchase_date := Some \<lparr>year = 2024, month = 1, day = 4\<rparr>\<rparr>],
     expenses := [paper_paid]\<rparr>"

definition strict_500 :: expense_settings where
  "strict_500 = (default_settings 7)\<lparr>require_approval := True, approval_threshold := 500\<rparr>"

definition strict_all :: expense_settings where
  "strict_all = (default_settings 7)\<lparr>require_approval := True, approval_threshold := 0\<rparr>"

definition db_strict_500 :: db where
  "db_strict_500 = db_with_paper\<lparr>settings_rows := [strict_500]\<rparr>"

definition db_strict_all :: db where
  "db_strict_all = db_with_paper\<lparr>settings_rows := [strict_all]\<rparr>"

definition numbered :: "nat \<Rightarrow> string \<Rightarrow> expense" where
  "numbered key number = paper\<lparr>pk := key, expense_number := number, tax_amount := 21, total_amount := 121\<rparr>"

definition db_9999 :: db where
  "db_9999 = empty_db\<lparr>settings_rows := [default_settings 7],
     expenses := [numbered 9999 ''EXP-20240105-9999'']\<rparr>"

definition db_10000 :: db where
  "db_10000 = empty_db\<lparr>settings_rows := [default_settings 7],
     expenses := [numbered 9999 ''EXP-20240105-9999'', numbered 10000 ''EXP-20240105-10000'']\<rparr>"

definition db_10000_twice :: db where
  "db_10000_twice = empty_db\<lparr>settings_rows := [default_settings 7],
     expenses := [numbered 9999 ''EXP-20240105-9999'', numbered 10000 ''EXP-20240105-10000'',
                  numbered 10001 ''EXP-20240105-10000'']\<rparr>"

definition db_two :: db where
  "db_two = empty_db\<lparr>settings_rows := [default_settings 7],
     expenses := [numbered 1 ''EXP-20240105-0001'', numbered 2 ''EXP-20240105-0002'']\<rparr>"

definition db_odd :: db where
  "db_odd = empty_db\<lparr>settings_rows := [default_settings 7],
     expenses := [numbered 1 ''EXP-20240105-0007'', numbered 2 ''EXP-20240105-x1'']\<rparr>"

section \<open>Evaluation\<close>

lemma digits_small: "n < 10 \<Longrightarrow> digits n = [digit_char n]"
  by (simp add: digits.simps)

lemma digits_large: "10 \<le> n \<Longrightarrow> digits n = digits (n div 10) @ [digit_char (n mod 10)]"
  by (subst digits.simps) simp

lemma floor_rat_numeral: "\<lfloor>numeral a / numeral b :: rat\<rfloor> = numeral a div numeral b"
  using floor_divide_of_int_eq [of "numeral a" "numeral b", where ?'a = rat] by simp

lemma floor_rat_neg_numeral: "\<lfloor>- (numeral a / numeral b) :: rat\<rfloor> = - numeral a div numeral b"
  using floor_divide_of_int_eq [of "- numeral a" "numeral b", where ?'a = rat] by simp

lemmas eval_decimal = quantize_def round_half_even_def Let_def floor_rat_numeral floor_rat_neg_numeral

lemma replicate_numeral: "replicate (numeral k) x = x # replicate (pred_numeral k) x"
  by (simp add: numeral_eq_Suc)

lemmas eval_string = format_04d_def strftime_Ymd_def zfill_def digits_small digits_large
  digit_char_def startswith_def replicate_numeral

lemmas eval_save = expense_save_def calculate_tax_and_total_def auto_generate_number_def
  number_prefix_for_def get_settings_def default_settings_def generate_expense_number_def
  base_save_expense_def all_objects_def objects_def first_def order_by_expense_number_desc_def
  last_number_def

section \<open>The parts of a save\<close>

lemma calculate_frame [simp]:
  "pk (calculate_tax_and_total s) = pk s"
  "hub_id (calculate_tax_and_total s) = hub_id s"
  "is_deleted (calculate_tax_and_total s) = is_deleted s"
  "expense_number (calculate_tax_and_total s) = expense_number s"
  "amount (calculate_tax_and_total s) = amount s"
  "tax_rate (calculate_tax_and_total s) = tax_rate s"
  "status (calculate_tax_and_total s) = status s"
  "supplier_id (calculate_tax_and_total s) = supplier_id s"
  "expense_date (calculate_tax_and_total s) = expense_date s"
  "approved_by (calculate_tax_and_total s) = approved_by s"
  "approved_at (calculate_tax_and_total s) = approved_at s"
  "paid_at (calculate_tax_and_total s) = paid_at s"
  by (simp_all add: calculate_tax_and_total_def Let_def)

lemma calculate_zero: "amount s = 0 \<Longrightarrow> calculate_tax_and_total s = s"
  by (simp add: calculate_tax_and_total_def)

lemma calculate_nonzero:
  "amount s \<noteq> 0 \<Longrightarrow> tax_amount (calculate_tax_and_total s) = quantize (amount s * tax_rate s / 100) 2"
  "amount s \<noteq> 0 \<Longrightarrow> total_amount (calculate_tax_and_total s) =
     quantize (amount s + quantize (amount s * tax_rate s / 100) 2) 2"
  by (simp_all add: calculate_tax_and_total_def Let_def)

lemma get_settings_frame:
  "get_settings d hub = Inr (s, d') \<Longrightarrow>
     expenses d' = expenses d \<and> suppliers d' = suppliers d \<and> local_users d' = local_users d"
  by (auto simp: get_settings_def split: list.splits)

lemma number_prefix_for_frame:
  "number_prefix_for d hub = (p, d') \<Longrightarrow>
     expenses d' = expenses d \<and> suppliers d' = suppliers d \<and> local_users d' = local_users d"
  by (auto simp: number_prefix_for_def split: sum.splits if_splits dest: get_settings_frame)

lemma generate_expense_number_nonempty: "generate_expense_number d hub prefix today \<noteq> []"
  by (simp add: generate_expense_number_def Let_def)

lemma auto_generate_number_set:
  "expense_number s \<noteq> [] \<Longrightarrow> auto_generate_number s now d = (s, d)"
  by (simp add: auto_generate_number_def)

lemma auto_generate_number_frame:
  assumes "auto_generate_number s now d = (s', d')"
  shows "expenses d' = expenses d" "suppliers d' = suppliers d" "local_users d' = local_users d"
    "s' = s\<lparr>expense_number := expense_number s'\<rparr>" "expense_number s' \<noteq> []"
  using assms
  by (auto simp: auto_generate_number_def generate_expense_number_nonempty
      split: if_splits prod.splits dest: number_prefix_for_frame)

lemma base_save_full:
  "\<exists>d'. base_save_expense s None d = Inr d' \<and> persisted d' s \<and>
     settings_rows d' = settings_rows d \<and> suppliers d' = suppliers d \<and> local_users d' = local_users d"
  by (cases "pk s \<in> set (map pk (expenses d))")
    (auto simp: base_save_expense_def persisted_def list_all_iff image_iff)

lemma expense_save_full:
  "\<exists>s1 d1 d'. auto_generate_number (calculate_tax_and_total s) now d = (s1, d1) \<and>
      expense_save s None now d = (Inr s1, d') \<and> persisted d' s1"
proof -
  obtain s1 d1 where a: "auto_generate_number (calculate_tax_and_total s) now d = (s1, d1)"
    by (cases "auto_generate_number (calculate_tax_and_total s) now d")
  obtain d' where b: "base_save_expense s1 None d1 = Inr d'" "persisted d' s1"
    using base_save_full [of s1 d1] by blast
  show ?thesis using a b by (simp add: expense_save_def)
qed

lemma save_paper: "expense_save paper None jan5 empty_db = (Inr paper_saved, db_with_paper)"
  by (simp add: eval_save eval_string eval_decimal paper_def jan5_def empty_db_def paper_saved_def
      db_with_paper_def)

section \<open>A zero amount\<close>

text \<open>
  C9. A save of an expense whose amount is zero skips the computation of tax and total:
  the object saved, which is the row the database then holds, has the tax amount and the
  total amount that the object had before.
\<close>

theorem save_zero_amount_keeps_totals:
  assumes "amount self = 0"
  shows "\<exists>self' d'. expense_save self None now d = (Inr self', d') \<and> persisted d' self' \<and>
           amount self' = 0 \<and> tax_amount self' = tax_amount self \<and>
           total_amount self' = total_amount self"
proof -
  obtain s1 d1 d' where a: "auto_generate_number (calculate_tax_and_total self) now d = (s1, d1)"
    and b: "expense_save self None now d = (Inr s1, d')" "persisted d' s1"
    using expense_save_full [of self now d] by blast
  have c: "calculate_tax_and_total self = self" using assms by (rule calculate_zero)
  obtain n where "s1 = self\<lparr>expense_number := n\<rparr>"
    using auto_generate_number_frame(4) [OF a] c by simp
  then have "amount s1 = amount self" "tax_amount s1 = tax_amount self" "total_amount s1 = total_amount self"
    by simp_all
  with b assms show ?thesis by auto
qed

text \<open>
  The expense saved with amount 100 at 21 percent, its amount then edited to zero: the row
  keeps the tax amount 21 and the total 121.
\<close>

theorem save_zero_amount_keeps_totals_witness:
  "amount (paper_saved\<lparr>amount := 0\<rparr>) = 0 \<and>
   (\<exists>self' d'. expense_save (paper_saved\<lparr>amount := 0\<rparr>) None jan5 db_with_paper = (Inr self', d') \<and>
      persisted d' self' \<and> amount self' = 0 \<and> tax_amount self' = 21 \<and> total_amount self' = 121)"
  using save_zero_amount_keeps_totals [of "paper_saved\<lparr>amount := 0\<rparr>" jan5 db_with_paper]
  by (simp add: paper_saved_def)

section \<open>Numbering without auto numbering\<close>

text \<open>
  C10. An expense saved without a number gets one whatever the tenant's settings say: with
  \<open>auto_numbering\<close> off the number is generated all the same, under the prefix \<open>EXP\<close>
  in place of the configured \<open>number_prefix\<close>, which is used only with \<open>auto_numbering\<close> on
  (and not empty).
\<close>

theorem number_generated_without_auto_numbering:
  assumes "expense_number self = []"
    and "get_settings d (hub_id self) = Inr (settings, d1)"
  shows "\<exists>self' d'. expense_save self None now d = (Inr self', d') \<and> persisted d' self' \<and>
           expense_number self' \<noteq> [] \<and>
           expense_number self' = generate_expense_number d1 (hub_id self)
             (if auto_numbering settings \<and> number_prefix settings \<noteq> [] then number_prefix settings
              else ''EXP'') now"
proof -
  obtain s1 d2 d' where a: "auto_generate_number (calculate_tax_and_total self) now d = (s1, d2)"
    and b: "expense_save self None now d = (Inr s1, d')" "persisted d' s1"
    using expense_save_full [of self now d] by blast
  have "expense_number s1 = generate_expense_number d1 (hub_id self)
             (if auto_numbering settings \<and> number_prefix settings \<noteq> [] then number_prefix settings
              else ''EXP'') now"
    using a assms by (auto simp: auto_generate_number_def number_prefix_for_def split: if_splits)
  with b show ?thesis by (simp add: generate_expense_number_nonempty)
qed

lemma generate_first_exp: "generate_expense_number db_gasto_off 7 ''EXP'' jan5 = ''EXP-20240105-0001''"
  by (simp add: generate_expense_number_def all_objects_def first_def
      order_by_expense_number_desc_def eval_string jan5_def empty_db_def db_gasto_off_def)

text \<open>
  A tenant with \<open>auto_numbering\<close> off and the prefix \<open>GASTO\<close>: the first expense of the day
  is numbered \<open>EXP-20240105-0001\<close>.
\<close>

theorem number_generated_without_auto_numbering_witness:
  "expense_number paper = [] \<and>
   get_settings db_gasto_off (hub_id paper) = Inr (gasto_off, db_gasto_off) \<and>
   \<not> auto_numbering gasto_off \<and> number_prefix gasto_off = ''GASTO'' \<and>
   (\<exists>self' d'. expense_save paper None jan5 db_gasto_off = (Inr self', d') \<and>
      expense_number self' = ''EXP-20240105-0001'')"
proof -
  have h1: "expense_number paper = []" by (simp add: paper_def)
  have h2: "get_settings db_gasto_off (hub_id paper) = Inr (gasto_off, db_gasto_off)"
    by (simp add: get_settings_def db_gasto_off_def gasto_off_def default_settings_def paper_def
        empty_db_def)
  have h3: "\<not> auto_numbering gasto_off" "number_prefix gasto_off = ''GASTO''"
    by (simp_all add: gasto_off_def)
  have h4: "hub_id paper = 7" by (simp add: paper_def)
  show ?thesis
    using number_generated_without_auto_numbering [OF h1 h2, of jan5] h1 h2 h3
    by (auto simp: h4 generate_first_exp)
qed

section \<open>What a save stores\<close>

lemma write_field_frame [simp]:
  "pk (write_expense_field s f row) = pk row"
  "hub_id (write_expense_field s f row) = hub_id row"
  "is_deleted (write_expense_field s f row) = is_deleted row"
  "expense_number (write_expense_field s f row) = expense_number row"
  "amount (write_expense_field s f row) = amount row"
  "tax_rate (write_expense_field s f row) = tax_rate row"
  "tax_amount (write_expense_field s f row) = tax_amount row"
  "total_amount (write_expense_field s f row) = total_amount row"
  "supplier_id (write_expense_field s f row) = supplier_id row"
  "expense_date (write_expense_field s f row) = expense_date row"
  by (cases f; simp)+

lemma fold_write_keeps:
  assumes "\<And>f row. g (write_expense_field s f row) = g row"
  shows "g (fold (write_expense_field s) names row) = g row"
  by (induction names arbitrary: row) (simp_all add: assms)

lemma write_fields_frame [simp]:
  "pk (fold (write_expense_field s) names row) = pk row"
  "hub_id (fold (write_expense_field s) names row) = hub_id row"
  "is_deleted (fold (write_expense_field s) names row) = is_deleted row"
  "expense_number (fold (write_expense_field s) names row) = expense_number row"
  "amount (fold (write_expense_field s) names row) = amount row"
  "tax_rate (fold (write_expense_field s) names row) = tax_rate row"
  "tax_amount (fold (write_expense_field s) names row) = tax_amount row"
  "total_amount (fold (write_expense_field s) names row) = total_amount row"
  "supplier_id (fold (write_expense_field s) names row) = supplier_id row"
  "expense_date (fold (write_expense_field s) names row) = expense_date row"
  by (rule fold_write_keeps, simp)+

text \<open>The rows after a save, whether it returns or raises.\<close>

lemma expense_save_rows:
  assumes "expense_save self uf now d = (r, d')"
  obtains s2 where "fst (auto_generate_number (calculate_tax_and_total self) now d) = s2"
    and "r = Inr s2 \<or> (\<exists>err. r = Inl err)"
    and "expenses d' = expenses d \<or>
         expenses d' = expenses d @ [s2] \<or>
         expenses d' = map (\<lambda>row. if pk row = pk s2 then s2 else row) (expenses d) \<or>
         (\<exists>names. expenses d' =
            map (\<lambda>row. if pk row = pk s2 then fold (write_expense_field s2) names row else row)
              (expenses d))"
proof -
  obtain s2 d1 where a: "auto_generate_number (calculate_tax_and_total self) now d = (s2, d1)"
    by (cases "auto_generate_number (calculate_tax_and_total self) now d")
  have e: "expenses d1 = expenses d" using auto_generate_number_frame(1) [OF a] .
  show ?thesis
  proof (rule that [of s2])
    show "fst (auto_generate_number (calculate_tax_and_total self) now d) = s2" using a by simp
    show "r = Inr s2 \<or> (\<exists>err. r = Inl err)"
      using assms a by (auto simp: expense_save_def split: sum.splits)
    show "expenses d' = expenses d \<or>
         expenses d' = expenses d @ [s2] \<or>
         expenses d' = map (\<lambda>row. if pk row = pk s2 then s2 else row) (expenses d) \<or>
         (\<exists>names. expenses d' =
            map (\<lambda>row. if pk row = pk s2 then fold (write_expense_field s2) names row else row)
              (expenses d))"
      using assms a e
      by (auto simp: expense_save_def base_save_expense_def split: sum.splits option.splits if_splits)
  qed
qed

lemma saved_object_number:
  assumes "fst (auto_generate_number (calculate_tax_and_total self) now d) = s2"
  shows "pk s2 = pk self" "amount s2 = amount self" "tax_rate s2 = tax_rate self"
    "expense_number self \<noteq> [] \<Longrightarrow> expense_number s2 = expense_number self"
    "expense_number s2 \<noteq> []"
    "amount s2 = 0 \<or> amounts_derived s2"
proof -
  obtain d1 where a: "auto_generate_number (calculate_tax_and_total self) now d = (s2, d1)"
    using assms by (cases "auto_generate_number (calculate_tax_and_total self) now d") simp
  obtain n where n: "s2 = (calculate_tax_and_total self)\<lparr>expense_number := n\<rparr>"
    using auto_generate_number_frame(4) [OF a] by blast
  show "pk s2 = pk self" "amount s2 = amount self" "tax_rate s2 = tax_rate self"
    by (simp_all add: n)
  show "expense_number s2 \<noteq> []" using auto_generate_number_frame(5) [OF a] .
  show "expense_number s2 = expense_number self" if "expense_number self \<noteq> []"
    using a that by (auto simp: auto_generate_number_set)
  show "amount s2 = 0 \<or> amounts_derived s2"
    by (cases "amount self = 0") (simp_all add: n amounts_derived_def calculate_nonzero)
qed

lemma expense_save_amounts_hold:
  assumes "amounts_hold d" and "expense_save self uf now d = (r, d')"
  shows "amounts_hold d'"
proof -
  from assms(2) obtain s2 where s2: "fst (auto_generate_number (calculate_tax_and_total self) now d) = s2"
    and rows: "expenses d' = expenses d \<or>
         expenses d' = expenses d @ [s2] \<or>
         expenses d' = map (\<lambda>row. if pk row = pk s2 then s2 else row) (expenses d) \<or>
         (\<exists>names. expenses d' =
            map (\<lambda>row. if pk row = pk s2 then fold (write_expense_field s2) names row else row)
              (expenses d))"
    by (rule expense_save_rows)
  have ok: "amount s2 = 0 \<or> amounts_derived s2" using saved_object_number(6) [OF s2] .
  have w: "amounts_derived (fold (write_expense_field s2) names row) = amounts_derived row"
    for names row
    by (simp add: amounts_derived_def)
  have old: "\<forall>e\<in>set (expenses d). amount e = 0 \<or> amounts_derived e"
    using assms(1) by (simp add: amounts_hold_def list_all_iff)
  have "\<forall>e\<in>set (expenses d'). amount e = 0 \<or> amounts_derived e"
    using rows
  proof (elim disjE exE)
    assume "expenses d' = expenses d"
    with old show ?thesis by simp
  next
    assume "expenses d' = expenses d @ [s2]"
    with old ok show ?thesis by auto
  next
    assume "expenses d' = map (\<lambda>row. if pk row = pk s2 then s2 else row) (expenses d)"
    with old ok show ?thesis by auto
  next
    fix names
    assume "expenses d' =
      map (\<lambda>row. if pk row = pk s2 then fold (write_expense_field s2) names row else row)
        (expenses d)"
    with old show ?thesis by (auto simp: w)
  qed
  then show ?thesis by (simp add: amounts_hold_def list_all_iff)
qed

lemma expense_save_number_stored:
  assumes "expense_number self \<noteq> []"
    and "number_stored d (pk self) (expense_number self)"
    and "expense_save self uf now d = (r, d')"
  shows "number_stored d' (pk self) (expense_number self)"
    and "r = Inr self' \<Longrightarrow> pk self' = pk self \<and> expense_number self' = expense_number self"
proof -
  from assms(3) obtain s2 where s2: "fst (auto_generate_number (calculate_tax_and_total self) now d) = s2"
    and r: "r = Inr s2 \<or> (\<exists>err. r = Inl err)"
    and rows: "expenses d' = expenses d \<or>
         expenses d' = expenses d @ [s2] \<or>
         expenses d' = map (\<lambda>row. if pk row = pk s2 then s2 else row) (expenses d) \<or>
         (\<exists>names. expenses d' =
            map (\<lambda>row. if pk row = pk s2 then fold (write_expense_field s2) names row else row)
              (expenses d))"
    by (rule expense_save_rows)
  have k: "pk s2 = pk self" "expense_number s2 = expense_number self"
    using saved_object_number(1,4) [OF s2] assms(1) by simp_all
  from rows assms(2) k show "number_stored d' (pk self) (expense_number self)"
    by (auto simp: number_stored_def list_all_iff)
  show "pk self' = pk self \<and> expense_number self' = expense_number self" if "r = Inr self'"
    using that r k by auto
qed

section \<open>The invariant of the derived amounts\<close>

lemma save_each_amounts_hold:
  "amounts_hold d \<Longrightarrow> save_each steps self d = (r, d') \<Longrightarrow> amounts_hold d'"
proof (induction steps arbitrary: self d)
  case Nil
  then show ?case by simp
next
  case (Cons step steps)
  obtain edit uf now where step: "step = (edit, uf, now)" by (cases step)
  obtain r1 d1 where one: "expense_save (edit self) uf now d = (r1, d1)"
    by (cases "expense_save (edit self) uf now d")
  have d1: "amounts_hold d1" using Cons.prems(1) one by (rule expense_save_amounts_hold)
  show ?case
  proof (cases r1)
    case (Inl err)
    with Cons.prems(2) step one d1 show ?thesis by simp
  next
    case (Inr self1)
    with Cons.prems(2) step one have "save_each steps self1 d1 = (r, d')" by simp
    with d1 show ?thesis by (rule Cons.IH)
  qed
qed

lemma save_each_last_object:
  "save_each steps self d = (Inr self', d') \<Longrightarrow> steps \<noteq> [] \<Longrightarrow>
     amount self' = 0 \<or> amounts_derived self'"
proof (induction steps arbitrary: self d)
  case Nil
  then show ?case by simp
next
  case (Cons step steps)
  obtain edit uf now where step: "step = (edit, uf, now)" by (cases step)
  obtain r1 d1 where one: "expense_save (edit self) uf now d = (r1, d1)"
    by (cases "expense_save (edit self) uf now d")
  from Cons.prems(1) step one obtain self1 where r1: "r1 = Inr self1"
    and rest: "save_each steps self1 d1 = (Inr self', d')"
    by (cases r1) simp_all
  show ?case
  proof (cases "steps = []")
    case True
    from one obtain s2 where s2: "fst (auto_generate_number (calculate_tax_and_total (edit self)) now d) = s2"
      and r: "r1 = Inr s2 \<or> (\<exists>err. r1 = Inl err)"
      by (rule expense_save_rows)
    from r r1 have "self1 = s2" by auto
    moreover from rest True have "self' = self1" by simp
    ultimately show ?thesis using saved_object_number(6) [OF s2] by simp
  next
    case False
    with rest show ?thesis by (rule Cons.IH)
  qed
qed

text \<open>
  C2, as amended. For expenses whose amount is not zero, the invariant
  \<open>tax_amount = round(amount * tax_rate / 100, 2)\<close>,
  \<open>total_amount = round(amount + tax_amount, 2)\<close> holds of the stored rows after every
  save, whatever the object saved and however many saves there are: a database whose rows
  satisfy it is left so by every history of edits and saves, and the object that the last
  save returns satisfies it too.
\<close>

theorem saves_keep_amounts_derived:
  assumes "amounts_hold d" and "save_each steps self d = (r, d')"
  shows "amounts_hold d' \<and>
         (\<forall>self'. r = Inr self' \<and> steps \<noteq> [] \<and> amount self' \<noteq> 0 \<longrightarrow> amounts_derived self')"
  using save_each_amounts_hold [OF assms] save_each_last_object [of steps self d _ d'] assms(2)
  by blast

text \<open>
  The expense of 100 at 21 percent, created, saved again with the rate 10, then saved by an
  action that writes the status only: the stored row has tax 10 and total 110.
\<close>

lemma three_saves:
  "save_each [(\<lambda>e. e, None, jan5), (\<lambda>e. e\<lparr>tax_rate := 10\<rparr>, None, jan5),
              (\<lambda>e. e\<lparr>status := ''approved''\<rparr>, Some [Status, Updated_at], jan5)] paper empty_db =
   (Inr (paper_saved\<lparr>tax_rate := 10, tax_amount := 10, total_amount := 110, status := ''approved''\<rparr>),
    db_with_paper\<lparr>expenses :=
      [paper_saved\<lparr>tax_rate := 10, tax_amount := 10, total_amount := 110, status := ''approved''\<rparr>]\<rparr>)"
  by (simp add: save_paper)
    (simp add: eval_save eval_decimal paper_def jan5_def empty_db_def paper_saved_def
      db_with_paper_def)

theorem saves_keep_amounts_derived_witness:
  "amounts_hold empty_db \<and>
   save_each [(\<lambda>e. e, None, jan5), (\<lambda>e. e\<lparr>tax_rate := 10\<rparr>, None, jan5),
              (\<lambda>e. e\<lparr>status := ''approved''\<rparr>, Some [Status, Updated_at], jan5)] paper empty_db =
   (Inr (paper_saved\<lparr>tax_rate := 10, tax_amount := 10, total_amount := 110, status := ''approved''\<rparr>),
    db_with_paper\<lparr>expenses :=
      [paper_saved\<lparr>tax_rate := 10, tax_amount := 10, total_amount := 110, status := ''approved''\<rparr>]\<rparr>) \<and>
   amounts_hold (db_with_paper\<lparr>expenses :=
      [paper_saved\<lparr>tax_rate := 10, tax_amount := 10, total_amount := 110, status := ''approved''\<rparr>]\<rparr>) \<and>
   amounts_derived (paper_saved\<lparr>tax_rate := 10, tax_amount := 10, total_amount := 110, status := ''approved''\<rparr>)"
proof -
  have h1: "amounts_hold empty_db" by (simp add: amounts_hold_def empty_db_def)
  have h2: "amount (paper_saved\<lparr>tax_rate := 10, tax_amount := 10, total_amount := 110, status := ''approved''\<rparr>) \<noteq> 0"
    by (simp add: paper_saved_def paper_def)
  show ?thesis
    using saves_keep_amounts_derived [OF h1 three_saves] h1 h2 three_saves by simp
qed

text \<open>
  C2 as stated fails where the amount is zero: the expense saved with amount 100 and then
  with amount 0 is stored with amount 0 and the tax amount 21, which is not
  \<open>round(0 * 21 / 100, 2)\<close>.
\<close>

theorem saves_keep_amounts_derived_counterexample:
  "expense_save (paper_saved\<lparr>amount := 0\<rparr>) None jan5 db_with_paper =
     (Inr (paper_saved\<lparr>amount := 0\<rparr>), db_with_paper\<lparr>expenses := [paper_saved\<lparr>amount := 0\<rparr>]\<rparr>) \<and>
   tax_amount (paper_saved\<lparr>amount := 0\<rparr>) \<noteq>
     quantize (amount (paper_saved\<lparr>amount := 0\<rparr>) * tax_rate (paper_saved\<lparr>amount := 0\<rparr>) / 100) 2"
  by (simp add: eval_save eval_decimal paper_def empty_db_def paper_saved_def db_with_paper_def)

section \<open>The expense number, once set\<close>

lemma expense_save_object:
  assumes "expense_save self uf now d = (Inr s2, d')"
  shows "fst (auto_generate_number (calculate_tax_and_total self) now d) = s2"
proof -
  obtain s d1 where a: "auto_generate_number (calculate_tax_and_total self) now d = (s, d1)"
    by (cases "auto_generate_number (calculate_tax_and_total self) now d")
  from assms a have "s = s2" by (simp add: expense_save_def split: sum.splits)
  with a show ?thesis by simp
qed

lemma save_each_number_stored:
  "expense_number self \<noteq> [] \<Longrightarrow> list_all (\<lambda>step. keeps_number (fst step)) steps \<Longrightarrow>
   number_stored d (pk self) (expense_number self) \<Longrightarrow> save_each steps self d = (r, d') \<Longrightarrow>
   number_stored d' (pk self) (expense_number self) \<and>
   (\<forall>self'. r = Inr self' \<longrightarrow> pk self' = pk self \<and> expense_number self' = expense_number self)"
proof (induction steps arbitrary: self d)
  case Nil
  from Nil.prems(4) have "r = Inr self" and "d' = d" by simp_all
  with Nil.prems(3) show ?case by simp
next
  case (Cons step steps)
  obtain edit uf now where step: "step = (edit, uf, now)" by (cases step)
  have keeps: "keeps_number edit" and others: "list_all (\<lambda>step. keeps_number (fst step)) steps"
    using Cons.prems(2) by (simp_all add: step)
  have edit: "pk (edit self) = pk self" "expense_number (edit self) = expense_number self"
    using keeps by (simp_all add: keeps_number_def)
  obtain r1 d1 where one: "expense_save (edit self) uf now d = (r1, d1)"
    by (cases "expense_save (edit self) uf now d")
  have set: "expense_number (edit self) \<noteq> []" using Cons.prems(1) edit by simp
  have stored: "number_stored d (pk (edit self)) (expense_number (edit self))"
    using Cons.prems(3) edit by simp
  have d1: "number_stored d1 (pk self) (expense_number self)"
    using expense_save_number_stored(1) [OF set stored one] edit by simp
  show ?case
  proof (cases r1)
    case (Inl err)
    from Cons.prems(4) have "(Inl err, d1) = (r, d')" by (simp add: step one Inl)
    then have "r = Inl err" "d' = d1" by simp_all
    with d1 show ?thesis by simp
  next
    case (Inr self1)
    have same: "pk self1 = pk self" "expense_number self1 = expense_number self"
      using expense_save_number_stored(2) [OF set stored one Inr] edit by simp_all
    from Inr Cons.prems(4) one have rest: "save_each steps self1 d1 = (r, d')"
      by (simp add: step)
    have "number_stored d' (pk self1) (expense_number self1) \<and>
      (\<forall>self'. r = Inr self' \<longrightarrow> pk self' = pk self1 \<and> expense_number self' = expense_number self1)"
    proof (rule Cons.IH [OF _ others _ rest])
      show "expense_number self1 \<noteq> []" using same Cons.prems(1) by simp
      show "number_stored d1 (pk self1) (expense_number self1)" using d1 same by simp
    qed
    then show ?thesis unfolding same .
  qed
qed

text \<open>
  C8. A save assigns an expense number only to an expense that has none, and then always:
  the object saved has a number. Once the number is set, no later save changes it, in the
  object or in the stored rows, whatever the edits between the saves do to the other
  fields and whichever fields the saves write.
\<close>

theorem expense_number_immutable:
  "(expense_number self = [] \<and> expense_save self update_fields now d = (Inr self', d') \<longrightarrow>
      expense_number self' \<noteq> []) \<and>
   (expense_number self \<noteq> [] \<and> list_all (\<lambda>step. keeps_number (fst step)) steps \<and>
    number_stored d (pk self) (expense_number self) \<and> save_each steps self d = (r, d1) \<longrightarrow>
      number_stored d1 (pk self) (expense_number self) \<and>
      (\<forall>last. r = Inr last \<longrightarrow> expense_number last = expense_number self))"
proof (intro conjI impI)
  assume "expense_number self = [] \<and> expense_save self update_fields now d = (Inr self', d')"
  then have sv: "expense_save self update_fields now d = (Inr self', d')" by blast
  define s2 where "s2 = fst (auto_generate_number (calculate_tax_and_total self) now d)"
  have s2: "fst (auto_generate_number (calculate_tax_and_total self) now d) = s2"
    by (simp add: s2_def)
  have "self' = s2"
    using expense_save_object [OF sv] by (simp add: s2_def)
  then show "expense_number self' \<noteq> []" using saved_object_number(5) [OF s2] by simp
next
  assume b: "expense_number self \<noteq> [] \<and> list_all (\<lambda>step. keeps_number (fst step)) steps \<and>
    number_stored d (pk self) (expense_number self) \<and> save_each steps self d = (r, d1)"
  from b have b1: "expense_number self \<noteq> []"
    and b2: "list_all (\<lambda>step. keeps_number (fst step)) steps"
    and b3: "number_stored d (pk self) (expense_number self)"
    and b4: "save_each steps self d = (r, d1)"
    by blast+
  have c: "number_stored d1 (pk self) (expense_number self) \<and>
   (\<forall>self'. r = Inr self' \<longrightarrow> pk self' = pk self \<and> expense_number self' = expense_number self)"
    using b1 b2 b3 b4 by (rule save_each_number_stored)
  from c show "number_stored d1 (pk self) (expense_number self)" by blast
  from c show "\<forall>last. r = Inr last \<longrightarrow> expense_number last = expense_number self" by blast
qed


text \<open>
  The new expense gets the number \<open>EXP-20240105-0001\<close> at its first save; saved again with
  another rate and then by an action that writes the status, it has that number still.
\<close>

lemma save_paper_later:
  "save_each later_saves paper_saved db_with_paper =
     (Inr paper_at_10, db_with_paper\<lparr>expenses := [paper_at_10]\<rparr>)"
  by (simp add: later_saves_def eval_save eval_decimal paper_def jan5_def empty_db_def
      paper_saved_def db_with_paper_def paper_at_10_def)

theorem expense_number_immutable_witness:
  "expense_number paper = [] \<and>
   expense_save paper None jan5 empty_db = (Inr paper_saved, db_with_paper) \<and>
   expense_number paper_saved = ''EXP-20240105-0001'' \<and>
   list_all (\<lambda>step. keeps_number (fst step)) later_saves \<and>
   number_stored db_with_paper (pk paper_saved) (expense_number paper_saved) \<and>
   save_each later_saves paper_saved db_with_paper =
     (Inr paper_at_10, db_with_paper\<lparr>expenses := [paper_at_10]\<rparr>) \<and>
   number_stored (db_with_paper\<lparr>expenses := [paper_at_10]\<rparr>) (pk paper_saved)
     (expense_number paper_saved) \<and>
   expense_number paper_at_10 = expense_number paper_saved"
proof -
  have h1: "expense_number paper = []" by (simp add: paper_def)
  have h2: "expense_number paper_saved = ''EXP-20240105-0001''"
    by (simp add: paper_saved_def)
  have h3: "list_all (\<lambda>step. keeps_number (fst step)) later_saves"
    by (simp add: keeps_number_def later_saves_def)
  have h4: "number_stored db_with_paper (pk paper_saved) (expense_number paper_saved)"
    by (simp add: number_stored_def db_with_paper_def)
  have c1: "expense_number paper_saved \<noteq> []"
    using expense_number_immutable [where self = paper and update_fields = None and now = jan5
        and d = empty_db and self' = paper_saved and d' = db_with_paper] h1 save_paper
    by blast
  have c2: "number_stored (db_with_paper\<lparr>expenses := [paper_at_10]\<rparr>) (pk paper_saved)
     (expense_number paper_saved) \<and>
     (\<forall>last. Inr paper_at_10 = (Inr last :: error + expense) \<longrightarrow>
        expense_number last = expense_number paper_saved)"
    using expense_number_immutable [where self = paper_saved and steps = later_saves
        and d = db_with_paper and r = "Inr paper_at_10"
        and ?d1.0 = "db_with_paper\<lparr>expenses := [paper_at_10]\<rparr>"] c1 h3 h4 save_paper_later
    by blast
  from c2 have c3: "expense_number paper_at_10 = expense_number paper_saved" by blast
  from h1 save_paper h2 h3 h4 save_paper_later c2 c3 show ?thesis by blast
qed

section \<open>Rounding\<close>

lemma round_half_even_near: "\<bar>of_int (round_half_even y) - y\<bar> \<le> 1 / 2"
proof -
  have "of_int \<lfloor>y\<rfloor> \<le> y" "y < of_int \<lfloor>y\<rfloor> + 1" by linarith+
  then show ?thesis by (auto simp: round_half_even_def Let_def)
qed

lemma round_half_even_tie:
  assumes "\<bar>of_int (round_half_even y) - y\<bar> = 1 / 2"
  shows "even (round_half_even y)"
proof -
  have f: "of_int \<lfloor>y\<rfloor> \<le> y" "y < of_int \<lfloor>y\<rfloor> + 1" by linarith+
  show ?thesis
  proof (cases "y - of_int \<lfloor>y\<rfloor> = 1 / 2")
    case True
    then show ?thesis by (simp add: round_half_even_def Let_def)
  next
    case False
    with f assms have False
      by (auto simp: round_half_even_def Let_def split: if_splits)
    then show ?thesis ..
  qed
qed

lemma quantize_cents: "quantize x 2 * 100 = of_int (round_half_even (x * 100))"
  by (simp add: quantize_def)

lemma quantize_half_even: "half_even_cents x (quantize x 2)"
proof -
  let ?k = "round_half_even (x * 100)"
  have q: "quantize x 2 = of_int ?k / 100" by (simp add: quantize_def)
  have d: "\<bar>quantize x 2 - x\<bar> = \<bar>of_int ?k - x * 100\<bar> / 100"
    unfolding q by (simp add: field_simps abs_if)
  have near: "\<bar>quantize x 2 - x\<bar> \<le> 1 / 200"
    using round_half_even_near [of "x * 100"] unfolding d by simp
  have tie: "even ?k" if "\<bar>quantize x 2 - x\<bar> = 1 / 200"
  proof (rule round_half_even_tie)
    from that show "\<bar>of_int ?k - x * 100\<bar> = 1 / 2" unfolding d by simp
  qed
  show ?thesis
    unfolding half_even_cents_def using near tie by (simp add: quantize_cents)
qed

text \<open>The rounding is determined: no other value is \<open>x\<close> rounded half to even.\<close>

lemma half_even_cents_unique:
  assumes "half_even_cents x q" and "half_even_cents x q'"
  shows "q = q'"
proof -
  define k where "k = \<lfloor>q * 100\<rfloor>"
  define k' where "k' = \<lfloor>q' * 100\<rfloor>"
  have a: "of_int k = q * 100" "\<bar>q - x\<bar> \<le> 1 / 200" "\<bar>q - x\<bar> = 1 / 200 \<longrightarrow> even k"
    using assms(1) unfolding half_even_cents_def k_def by blast+
  have a': "of_int k' = q' * 100" "\<bar>q' - x\<bar> \<le> 1 / 200" "\<bar>q' - x\<bar> = 1 / 200 \<longrightarrow> even k'"
    using assms(2) unfolding half_even_cents_def k'_def by blast+
  have q: "q = of_int k / 100" and q': "q' = of_int k' / 100"
    using a(1) a'(1) by simp_all
  have e: "\<bar>q - x\<bar> = \<bar>of_int k - x * 100\<bar> / 100" "\<bar>q' - x\<bar> = \<bar>of_int k' - x * 100\<bar> / 100"
    unfolding q q' by (simp_all add: field_simps abs_if)
  have n: "\<bar>of_int k - x * 100\<bar> \<le> 1 / 2" "\<bar>of_int k' - x * 100\<bar> \<le> 1 / 2"
    using a(2) a'(2) unfolding e by simp_all
  have t: "\<bar>of_int k - x * 100\<bar> = 1 / 2 \<Longrightarrow> even k" "\<bar>of_int k' - x * 100\<bar> = 1 / 2 \<Longrightarrow> even k'"
    using a(3) a'(3) unfolding e by simp_all
  have "\<bar>(of_int k :: rat) - of_int k'\<bar> \<le> 1" using n by linarith
  then have "\<bar>k - k'\<bar> \<le> 1" by (metis of_int_abs of_int_diff of_int_le_1_iff)
  then consider "k = k'" | "k = k' + 1" | "k' = k + 1" by linarith
  then have "k = k'"
  proof cases
    case 1
    then show ?thesis .
  next
    case 2
    with n have "\<bar>of_int k - x * 100\<bar> = 1 / 2" "\<bar>of_int k' - x * 100\<bar> = 1 / 2" by auto
    with t have "even k" "even k'" by blast+
    with 2 show ?thesis by simp
  next
    case 3
    with n have "\<bar>of_int k - x * 100\<bar> = 1 / 2" "\<bar>of_int k' - x * 100\<bar> = 1 / 2" by auto
    with t have "even k" "even k'" by blast+
    with 3 show ?thesis by simp
  qed
  with q q' show ?thesis by simp
qed

text \<open>
  C5, as amended. For every amount other than zero and every tax rate, the tax amount and
  the total amount that a save derives are rounded to two decimal places half to even: each
  is a whole number of cents at most half a cent from the exact value, and where the exact
  value lies halfway between two cents, the one with the even last digit.
\<close>

theorem amounts_rounded_half_even:
  assumes "amount self \<noteq> 0"
    and "expense_save self update_fields now d = (Inr self', d')"
  shows "half_even_cents (amount self * tax_rate self / 100) (tax_amount self') \<and>
         half_even_cents (amount self + tax_amount self') (total_amount self')"
proof -
  have s: "fst (auto_generate_number (calculate_tax_and_total self) now d) = self'"
    using assms(2) by (rule expense_save_object)
  have k: "amount self' = amount self" "tax_rate self' = tax_rate self"
    using saved_object_number(2,3) [OF s] .
  have "amounts_derived self'"
    using saved_object_number(6) [OF s] assms(1) k by simp
  then have "tax_amount self' = quantize (amount self * tax_rate self / 100) 2"
    and "total_amount self' = quantize (amount self + tax_amount self') 2"
    by (simp_all add: amounts_derived_def k)
  then show ?thesis by (simp add: quantize_half_even)
qed

lemma save_half_euro:
  "expense_save half_euro None jan5 empty_db = (Inr half_euro_saved, db_with_half_euro)"
  by (simp add: eval_save eval_string eval_decimal half_euro_def paper_def jan5_def empty_db_def
      half_euro_saved_def db_with_half_euro_def)

text \<open>
  Half a euro at 21 percent: the exact tax, 0.105, lies halfway between 0.10 and 0.11; the
  tax amount is 0.10 and the total 0.60.
\<close>

theorem amounts_rounded_half_even_witness:
  "amount half_euro \<noteq> 0 \<and>
   expense_save half_euro None jan5 empty_db = (Inr half_euro_saved, db_with_half_euro) \<and>
   half_even_cents (amount half_euro * tax_rate half_euro / 100) (tax_amount half_euro_saved) \<and>
   half_even_cents (amount half_euro + tax_amount half_euro_saved) (total_amount half_euro_saved) \<and>
   amount half_euro * tax_rate half_euro / 100 = 105 / 1000 \<and>
   tax_amount half_euro_saved = 10 / 100 \<and> total_amount half_euro_saved = 60 / 100"
proof -
  have h: "amount half_euro \<noteq> 0" by (simp add: half_euro_def)
  have v: "amount half_euro * tax_rate half_euro / 100 = 105 / 1000"
    "tax_amount half_euro_saved = 10 / 100" "total_amount half_euro_saved = 60 / 100"
    by (simp_all add: half_euro_def half_euro_saved_def paper_def)
  from amounts_rounded_half_even [OF h save_half_euro] h save_half_euro v
  show ?thesis by blast
qed

text \<open>
  C5 as stated fails there: rounding half up would give the tax amount 0.11, and the save
  gives 0.10. It fails too where the amount is zero, since nothing is derived then: the
  expense saved with amount 100 and then with amount 0 keeps the tax amount 21.
\<close>

theorem amounts_rounded_half_even_counterexample:
  "expense_save half_euro None jan5 empty_db = (Inr half_euro_saved, db_with_half_euro) \<and>
   amount half_euro = 50 / 100 \<and> tax_rate half_euro = 21 \<and>
   tax_amount half_euro_saved = 10 / 100 \<and> tax_amount half_euro_saved \<noteq> 11 / 100 \<and>
   expense_save (paper_saved\<lparr>amount := 0\<rparr>) None jan5 db_with_paper =
     (Inr (paper_saved\<lparr>amount := 0\<rparr>), db_with_paper\<lparr>expenses := [paper_saved\<lparr>amount := 0\<rparr>]\<rparr>) \<and>
   tax_amount (paper_saved\<lparr>amount := 0\<rparr>) = 21"
  using save_half_euro
  by (simp add: half_euro_def half_euro_saved_def)
    (simp add: eval_save eval_decimal paper_def empty_db_def paper_saved_def db_with_paper_def)

section \<open>The actions on a stored expense\<close>

lemma get_expense_or_404_found:
  assumes "get_expense_or_404 d key hub = Inr e"
  shows "filter (\<lambda>e. pk e = key \<and> Some (hub_id e) = hub \<and> is_deleted e = False)
           (objects (expenses d)) = [e]"
    and "pk e = key" and "Some (hub_id e) = hub" and "\<not> is_deleted e" and "e \<in> set (expenses d)"
proof -
  let ?rows = "filter (\<lambda>e. pk e = key \<and> Some (hub_id e) = hub \<and> is_deleted e = False)
           (objects (expenses d))"
  from assms show one: "?rows = [e]"
    by (auto simp: get_expense_or_404_def split: list.splits)
  then have "e \<in> set ?rows" by simp
  then show "pk e = key" and "Some (hub_id e) = hub" and "\<not> is_deleted e"
    and "e \<in> set (expenses d)"
    by (simp_all add: objects_def)
qed

lemma filter_map_keep: "(\<And>x. P (f x) = P x) \<Longrightarrow> filter P (map f xs) = map f (filter P xs)"
  by (induction xs) simp_all

lemma get_expense_or_404_after:
  assumes "get_expense_or_404 d key hub = Inr e"
    and "expenses d' = map (\<lambda>row. if pk row = key then g row else row) (expenses d)"
    and "\<And>row. pk (g row) = pk row"
    and "\<And>row. hub_id (g row) = hub_id row"
    and "\<And>row. is_deleted (g row) = is_deleted row"
  shows "get_expense_or_404 d' key hub = Inr (g e)"
proof -
  let ?f = "\<lambda>row. if pk row = key then g row else row"
  let ?P = "\<lambda>e. pk e = key \<and> Some (hub_id e) = hub \<and> is_deleted e = False"
  have keep: "pk (?f row) = pk row" "hub_id (?f row) = hub_id row"
    "is_deleted (?f row) = is_deleted row" for row
    using assms(3-5) by simp_all
  have o: "objects (map ?f xs) = map ?f (objects xs)" for xs
    unfolding objects_def by (rule filter_map_keep) (simp only: keep)
  have "filter ?P (map ?f xs) = map ?f (filter ?P xs)" for xs
    by (rule filter_map_keep) (simp only: keep)
  then have "filter ?P (objects (map ?f xs)) = map ?f (filter ?P (objects xs))" for xs
    by (simp only: o)
  then have "filter ?P (objects (expenses d')) = map ?f [e]"
    using get_expense_or_404_found(1) [OF assms(1)] by (simp only: assms(2))
  also have "\<dots> = [g e]" using get_expense_or_404_found(2) [OF assms(1)] by simp
  finally show ?thesis by (simp add: get_expense_or_404_def)
qed

lemma saved_object_frame:
  assumes "fst (auto_generate_number (calculate_tax_and_total self) now d) = s2"
  shows "status s2 = status self" "approved_by s2 = approved_by self"
    "approved_at s2 = approved_at self" "paid_at s2 = paid_at self"
    "supplier_id s2 = supplier_id self" "hub_id s2 = hub_id self"
proof -
  obtain d1 where a: "auto_generate_number (calculate_tax_and_total self) now d = (s2, d1)"
    using assms by (cases "auto_generate_number (calculate_tax_and_total self) now d") simp
  obtain n where n: "s2 = (calculate_tax_and_total self)\<lparr>expense_number := n\<rparr>"
    using auto_generate_number_frame(4) [OF a] by blast
  show "status s2 = status self" "approved_by s2 = approved_by self"
    "approved_at s2 = approved_at self" "paid_at s2 = paid_at self"
    "supplier_id s2 = supplier_id self" "hub_id s2 = hub_id self"
    by (simp_all add: n)
qed

text \<open>A save with \<open>update_fields\<close> of an object whose row exists.\<close>

lemma expense_save_update_fields:
  assumes "pk self \<in> set (map pk (expenses d))"
  obtains s2 d' where "expense_save self (Some names) now d = (Inr s2, d')"
    and "fst (auto_generate_number (calculate_tax_and_total self) now d) = s2"
    and "expenses d' = map (\<lambda>row. if pk row = pk self then fold (write_expense_field s2) names row
                                   else row) (expenses d)"
    and "suppliers d' = suppliers d" and "local_users d' = local_users d"
proof -
  obtain s2 d1 where a: "auto_generate_number (calculate_tax_and_total self) now d = (s2, d1)"
    by (cases "auto_generate_number (calculate_tax_and_total self) now d")
  have f: "expenses d1 = expenses d" "suppliers d1 = suppliers d" "local_users d1 = local_users d"
    using auto_generate_number_frame(1-3) [OF a] .
  have s: "fst (auto_generate_number (calculate_tax_and_total self) now d) = s2"
    using a by simp
  have p: "pk s2 = pk self" using saved_object_number(1) [OF s] .
  let ?d' = "d1\<lparr>expenses := map (\<lambda>row. if pk row = pk self
      then fold (write_expense_field s2) names row else row) (expenses d)\<rparr>"
  have "expense_save self (Some names) now d = (Inr s2, ?d')"
    using a f p assms by (simp add: expense_save_def base_save_expense_def)
  then show ?thesis
    using s f by (intro that [of s2 ?d']) simp_all
qed

section \<open>Approval\<close>

text \<open>
  C6. Of an expense that the request finds, the approval succeeds if and only if the status
  is \<open>draft\<close> or \<open>pending\<close>. When it succeeds the stored expense is the one found with the
  status \<open>approved\<close>, \<open>approved_by\<close> the acting user and \<open>approved_at\<close> the current time,
  and nothing else changed. Otherwise (the status \<open>approved\<close>, \<open>paid\<close>, \<open>rejected\<close> or any
  other) the answer is the reported failure, not an exception, and the database is as it
  was.
\<close>

theorem approve_only_draft_or_pending:
  assumes "get_expense_or_404 d key (hub_id_of request) = Inr expense"
  shows "(status expense = ''draft'' \<or> status expense = ''pending'' \<longrightarrow>
            (\<exists>d'. expense_approve request key now d = (Success, d') \<and>
                  get_expense_or_404 d' key (hub_id_of request) =
                    Inr (expense\<lparr>status := ''approved'', approved_by := employee_of d request,
                                   approved_at := Some now\<rparr>))) \<and>
         (status expense \<noteq> ''draft'' \<and> status expense \<noteq> ''pending'' \<longrightarrow>
            expense_approve request key now d =
              (Declined ''Only draft or pending expenses can be approved.'', d)) \<and>
         (fst (expense_approve request key now d) = Success \<longleftrightarrow>
            status expense = ''draft'' \<or> status expense = ''pending'')"
proof -
  let ?names = "[Status, Approved_by, Approved_at, Updated_at]"
  let ?self = "expense\<lparr>status := ''approved'', approved_by := employee_of d request,
                        approved_at := Some now\<rparr>"
  have declined: "expense_approve request key now d =
      (Declined ''Only draft or pending expenses can be approved.'', d)"
    if "status expense \<noteq> ''draft'' \<and> status expense \<noteq> ''pending''"
    using that assms by (simp add: expense_approve_def Let_def)
  have approved: "\<exists>d'. expense_approve request key now d = (Success, d') \<and>
      get_expense_or_404 d' key (hub_id_of request) = Inr ?self"
    if ok: "status expense = ''draft'' \<or> status expense = ''pending''"
  proof -
    have key: "pk expense = key" and row: "expense \<in> set (expenses d)"
      using get_expense_or_404_found(2,5) [OF assms] .
    have "pk ?self \<in> set (map pk (expenses d))" using row by simp
    then obtain s2 d' where sv: "expense_save ?self (Some ?names) now d = (Inr s2, d')"
      and s2: "fst (auto_generate_number (calculate_tax_and_total ?self) now d) = s2"
      and rows: "expenses d' = map (\<lambda>row. if pk row = pk ?self
          then fold (write_expense_field s2) ?names row else row) (expenses d)"
      by (rule expense_save_update_fields [where names = ?names and now = now]) blast
    have fr: "status s2 = ''approved''" "approved_by s2 = employee_of d request"
      "approved_at s2 = Some now"
      using saved_object_frame(1-3) [OF s2] by simp_all
    have rows': "expenses d' = map (\<lambda>row. if pk row = key
          then fold (write_expense_field s2) ?names row else row) (expenses d)"
      using rows key by simp
    have "get_expense_or_404 d' key (hub_id_of request) =
        Inr (fold (write_expense_field s2) ?names expense)"
      using assms rows' by (rule get_expense_or_404_after) simp_all
    moreover have "fold (write_expense_field s2) ?names expense = ?self"
      by (simp add: fr)
    moreover have "expense_approve request key now d = (Success, d')"
      using assms ok sv by (auto simp: expense_approve_def Let_def)
    ultimately show ?thesis by simp
  qed
  have iff: "fst (expense_approve request key now d) = Success \<longleftrightarrow>
      status expense = ''draft'' \<or> status expense = ''pending''"
  proof (cases "status expense = ''draft'' \<or> status expense = ''pending''")
    case True
    with approved obtain d' where "expense_approve request key now d = (Success, d')" by blast
    with True show ?thesis by simp
  next
    case False
    with declined have "expense_approve request key now d =
      (Declined ''Only draft or pending expenses can be approved.'', d)" by blast
    with False show ?thesis by simp
  qed
  from declined approved iff show ?thesis by blast
qed

text \<open>
  The clerk approves the draft expense: it is stored approved by user 5 at the time of the
  request. The same request for the paid expense is declined and changes nothing.
\<close>

lemma find_paper: "get_expense_or_404 db_with_paper 1 (hub_id_of clerk) = Inr paper_saved"
  by (simp add: get_expense_or_404_def objects_def hub_id_of_def clerk_def db_with_paper_def
      paper_saved_def paper_def)

lemma find_paper_paid: "get_expense_or_404 db_paper_paid 1 (hub_id_of clerk) = Inr paper_paid"
  by (simp add: get_expense_or_404_def objects_def hub_id_of_def clerk_def db_paper_paid_def
      paper_paid_def paper_saved_def paper_def)

theorem approve_only_draft_or_pending_witness:
  "get_expense_or_404 db_with_paper 1 (hub_id_of clerk) = Inr paper_saved \<and>
   status paper_saved = ''draft'' \<and>
   (\<exists>d'. expense_approve clerk 1 jan5 db_with_paper = (Success, d') \<and>
         get_expense_or_404 d' 1 (hub_id_of clerk) =
           Inr (paper_saved\<lparr>status := ''approved'', approved_by := Some 5,
                              approved_at := Some jan5\<rparr>)) \<and>
   get_expense_or_404 db_paper_paid 1 (hub_id_of clerk) = Inr paper_paid \<and>
   status paper_paid = ''paid'' \<and>
   expense_approve clerk 1 jan5 db_paper_paid =
     (Declined ''Only draft or pending expenses can be approved.'', db_paper_paid)"
proof -
  have s: "status paper_saved = ''draft''" "status paper_paid = ''paid''"
    by (simp_all add: paper_paid_def paper_saved_def paper_def)
  have e: "employee_of db_with_paper clerk = Some 5"
    by (simp add: employee_of_def clerk_def db_with_paper_def empty_db_def)
  have n: "status paper_paid \<noteq> ''draft'' \<and> status paper_paid \<noteq> ''pending''"
    by (simp add: s)
  from approve_only_draft_or_pending [OF find_paper, of jan5] s(1)
  have a: "\<exists>d'. expense_approve clerk 1 jan5 db_with_paper = (Success, d') \<and>
         get_expense_or_404 d' 1 (hub_id_of clerk) =
           Inr (paper_saved\<lparr>status := ''approved'', approved_by := Some 5,
                              approved_at := Some jan5\<rparr>)"
    unfolding e by blast
  from approve_only_draft_or_pending [OF find_paper_paid, of jan5] n
  have b: "expense_approve clerk 1 jan5 db_paper_paid =
     (Declined ''Only draft or pending expenses can be approved.'', db_paper_paid)"
    by blast
  from find_paper find_paper_paid s a b show ?thesis by blast
qed

section \<open>The totals of a supplier\<close>

lemma date_le_refl: "date_le a a"
  by (simp add: date_le_def)

lemma date_le_trans: "date_le a b \<Longrightarrow> date_le b c \<Longrightarrow> date_le a c"
  by (auto simp: date_le_def)

lemma date_le_total: "date_le a b \<or> date_le b a"
  by (auto simp: date_le_def)

lemma max_date_latest: "latest_of ds (max_date ds)"
proof (induction ds)
  case Nil
  then show ?case by (simp add: latest_of_def)
next
  case (Cons x xs)
  show ?case
  proof (cases "max_date xs")
    case None
    with Cons have "xs = []" by (simp add: latest_of_def)
    with None show ?thesis by (simp add: latest_of_def date_le_refl)
  next
    case (Some m)
    with Cons have m: "m \<in> set xs" "\<forall>y\<in>set xs. date_le y m"
      by (simp_all add: latest_of_def list_all_iff)
    show ?thesis
    proof (cases "date_le m x")
      case True
      with m have "\<forall>y\<in>set xs. date_le y x" by (blast intro: date_le_trans)
      with True Some show ?thesis by (simp add: latest_of_def list_all_iff date_le_refl)
    next
      case False
      then have "date_le x m" using date_le_total [of m x] by blast
      with False Some m show ?thesis by (simp add: latest_of_def list_all_iff)
    qed
  qed
qed

lemma update_totals_query:
  "filter (\<lambda>e. is_deleted e = False \<and> status e = ''paid'')
     (filter (\<lambda>e. supplier_id e = Some sid) (objects (expenses d))) = paid_expenses_of d sid"
  unfolding paid_expenses_of_def objects_def filter_filter
  by (rule filter_cong) auto

lemma update_totals_result:
  assumes "pk self \<in> set (map pk (suppliers d))"
  defines "spent \<equiv> sum_list (map total_amount (paid_expenses_of d (pk self)))"
    and "latest \<equiv> max_date (map expense_date (paid_expenses_of d (pk self)))"
  shows "update_totals self d =
    (Inr (self\<lparr>total_spent := spent, last_purchase_date := latest\<rparr>),
     d\<lparr>suppliers := map (\<lambda>row. if pk row = pk self
         then row\<lparr>total_spent := spent, last_purchase_date := latest\<rparr> else row) (suppliers d)\<rparr>)"
proof -
  have t: "(case sum_total_amount (paid_expenses_of d (pk self)) of
              Some t \<Rightarrow> if t \<noteq> 0 then t else 0 | None \<Rightarrow> 0) = spent"
    by (simp add: sum_total_amount_def spent_def)
  show ?thesis
    unfolding update_totals_def update_totals_query Let_def t latest_def [symmetric]
    using assms(1) by (simp add: base_save_supplier_totals_def)
qed

lemma get_supplier_found:
  assumes "get_supplier d sid = Inr s"
  shows "pk s = sid" and "s \<in> set (suppliers d)"
proof -
  from assms obtain rest where "filter (\<lambda>s. pk s = sid) (suppliers d) = s # rest"
    by (auto simp: get_supplier_def all_objects_def split: list.splits)
  then have "s \<in> set (filter (\<lambda>s. pk s = sid) (suppliers d))" by simp
  then show "pk s = sid" and "s \<in> set (suppliers d)" by simp_all
qed

lemma get_supplier_missing:
  assumes "sid \<notin> set (map pk (suppliers d))"
  shows "get_supplier d sid = Inl DoesNotExist"
proof -
  have "filter (\<lambda>s. pk s = sid) (suppliers d) = []"
    using assms by (auto simp: filter_empty_conv)
  then show ?thesis by (simp add: get_supplier_def all_objects_def)
qed

lemma get_supplier_known:
  assumes "sid \<in> set (map pk (suppliers d))"
  shows "\<exists>s. get_supplier d sid = Inr s"
proof -
  have "filter (\<lambda>s. pk s = sid) (suppliers d) \<noteq> []"
    using assms by (auto simp: filter_empty_conv)
  then obtain s rest where "filter (\<lambda>s. pk s = sid) (suppliers d) = s # rest"
    by (cases "filter (\<lambda>s. pk s = sid) (suppliers d)") simp_all
  then show ?thesis by (simp add: get_supplier_def all_objects_def)
qed

lemma get_supplier_after:
  assumes "get_supplier d sid = Inr s"
    and "suppliers d' = map (\<lambda>row. if pk row = sid then g row else row) (suppliers d)"
    and "\<And>row. pk (g row) = pk row"
  shows "get_supplier d' sid = Inr (g s)"
proof -
  let ?f = "\<lambda>row. if pk row = sid then g row else row"
  from assms(1) obtain rest where r: "filter (\<lambda>s. pk s = sid) (suppliers d) = s # rest"
    by (auto simp: get_supplier_def all_objects_def split: list.splits)
  have "filter (\<lambda>s. pk s = sid) (map ?f xs) = map ?f (filter (\<lambda>s. pk s = sid) xs)" for xs
    by (rule filter_map_keep) (simp add: assms(3))
  then have "filter (\<lambda>s. pk s = sid) (suppliers d') = ?f s # map ?f rest"
    using r by (simp only: assms(2) list.map)
  moreover have "?f s = g s" using get_supplier_found(1) [OF assms(1)] by simp
  ultimately show ?thesis by (simp add: get_supplier_def all_objects_def)
qed

section \<open>Payment\<close>

lemma get_expense_or_404_rows:
  "expenses d' = expenses d \<Longrightarrow> get_expense_or_404 d' key hub = get_expense_or_404 d key hub"
  by (simp add: get_expense_or_404_def)

text \<open>What \<open>expense_mark_paid\<close> does once the approval gate lets the request through.\<close>

lemma mark_paid_permitted:
  assumes found: "get_expense_or_404 d key (hub_id_of request) = Inr expense"
    and settings: "get_settings d (hub_id expense) = Inr (settings, d1)"
    and pass: "\<not> (require_approval settings \<and> status expense \<noteq> ''approved'' \<and>
                 (approval_threshold settings < total_amount expense \<or>
                  approval_threshold settings = 0))"
  obtains d2 where
    "expenses d2 = map (\<lambda>row. if pk row = key then row\<lparr>status := ''paid'', paid_at := Some now\<rparr>
                               else row) (expenses d)"
    and "suppliers d2 = suppliers d"
    and "expense_mark_paid request key now d =
      (case supplier_id expense of
         None \<Rightarrow> (Success, d2)
       | Some sid \<Rightarrow>
           (case get_supplier d2 sid of
              Inl err \<Rightarrow> (Failed err, d2)
            | Inr s \<Rightarrow>
                (case update_totals s d2 of
                   (Inl err, d3) \<Rightarrow> (Failed err, d3)
                 | (Inr x, d3) \<Rightarrow> (Success, d3))))"
proof -
  let ?names = "[Status, Paid_at, Updated_at]"
  let ?self = "expense\<lparr>status := ''paid'', paid_at := Some now\<rparr>"
  have key: "pk expense = key" and row: "expense \<in> set (expenses d)"
    using get_expense_or_404_found(2,5) [OF found] .
  have d1: "expenses d1 = expenses d" "suppliers d1 = suppliers d"
    using get_settings_frame [OF settings] by simp_all
  have "pk ?self \<in> set (map pk (expenses d1))" using row d1 by simp
  then obtain s2 d2 where sv: "expense_save ?self (Some ?names) now d1 = (Inr s2, d2)"
    and s2: "fst (auto_generate_number (calculate_tax_and_total ?self) now d1) = s2"
    and rows: "expenses d2 = map (\<lambda>row. if pk row = pk ?self
        then fold (write_expense_field s2) ?names row else row) (expenses d1)"
    and sup: "suppliers d2 = suppliers d1"
    by (rule expense_save_update_fields [where names = ?names and now = now]) blast
  have fr: "status s2 = ''paid''" "paid_at s2 = Some now" "supplier_id s2 = supplier_id expense"
    using saved_object_frame(1,4,5) [OF s2] by simp_all
  show ?thesis
  proof (rule that [of d2])
    show "expenses d2 = map (\<lambda>row. if pk row = key
        then row\<lparr>status := ''paid'', paid_at := Some now\<rparr> else row) (expenses d)"
      using rows key d1 by (simp add: fr)
    show "suppliers d2 = suppliers d" using sup d1 by simp
    show "expense_mark_paid request key now d =
      (case supplier_id expense of
         None \<Rightarrow> (Success, d2)
       | Some sid \<Rightarrow>
           (case get_supplier d2 sid of
              Inl err \<Rightarrow> (Failed err, d2)
            | Inr s \<Rightarrow>
                (case update_totals s d2 of
                   (Inl err, d3) \<Rightarrow> (Failed err, d3)
                 | (Inr x, d3) \<Rightarrow> (Success, d3))))"
    proof -
      have gate: "(require_approval settings \<and> status expense \<notin> set [''approved''] \<and>
          (approval_threshold settings < total_amount expense \<or>
           approval_threshold settings = 0)) = False"
        using pass by simp
      show ?thesis
        unfolding expense_mark_paid_def Let_def found settings sum.case prod.case gate if_False sv
        by (simp add: fr)
    qed
  qed
qed

lemma paid_expenses_of_rows:
  "expenses d' = expenses d \<Longrightarrow> paid_expenses_of d' sid = paid_expenses_of d sid"
  by (simp add: paid_expenses_of_def)

text \<open>
  C1. Of an expense that the request finds, under the tenant's settings (the stored ones,
  or the defaults created at this first access): the request is declined exactly when
  \<open>require_approval\<close> is set, the status is not \<open>approved\<close>, and the total exceeds the
  threshold or the threshold is zero. So it is permitted whenever \<open>require_approval\<close> is
  off, and for an expense not approved whose total is at most a threshold above zero. A
  permitted request stores the expense with the status \<open>paid\<close> and \<open>paid_at\<close> the current
  time, nothing else of it changed, and answers with success (unless the expense names a
  supplier that has no row).
\<close>

theorem mark_paid_gate:
  assumes "get_expense_or_404 d key (hub_id_of request) = Inr expense"
    and "get_settings d (hub_id expense) = Inr (settings, d1)"
  shows "(require_approval settings \<and> status expense \<noteq> ''approved'' \<and>
            (approval_threshold settings < total_amount expense \<or> approval_threshold settings = 0) \<longrightarrow>
          expense_mark_paid request key now d =
            (Declined ''This expense requires approval before it can be marked as paid.'', d1)) \<and>
         (\<not> (require_approval settings \<and> status expense \<noteq> ''approved'' \<and>
            (approval_threshold settings < total_amount expense \<or> approval_threshold settings = 0)) \<longrightarrow>
          (\<exists>d'. expense_mark_paid request key now d =
                  (if supplier_known d expense then Success else Failed DoesNotExist, d') \<and>
                get_expense_or_404 d' key (hub_id_of request) =
                  Inr (expense\<lparr>status := ''paid'', paid_at := Some now\<rparr>)))"
proof (intro conjI impI)
  assume "require_approval settings \<and> status expense \<noteq> ''approved'' \<and>
            (approval_threshold settings < total_amount expense \<or> approval_threshold settings = 0)"
  then have gate: "(require_approval settings \<and> status expense \<notin> set [''approved''] \<and>
          (approval_threshold settings < total_amount expense \<or>
           approval_threshold settings = 0)) = True"
    by simp
  show "expense_mark_paid request key now d =
      (Declined ''This expense requires approval before it can be marked as paid.'', d1)"
    unfolding expense_mark_paid_def Let_def assms sum.case prod.case gate if_True ..
next
  assume pass: "\<not> (require_approval settings \<and> status expense \<noteq> ''approved'' \<and>
            (approval_threshold settings < total_amount expense \<or> approval_threshold settings = 0))"
  let ?paid = "\<lambda>row. row\<lparr>status := ''paid'', paid_at := Some now\<rparr>"
  from assms pass obtain d2 where
    rows: "expenses d2 = map (\<lambda>row. if pk row = key then ?paid row else row) (expenses d)"
    and sup: "suppliers d2 = suppliers d"
    and res: "expense_mark_paid request key now d =
      (case supplier_id expense of
         None \<Rightarrow> (Success, d2)
       | Some sid \<Rightarrow>
           (case get_supplier d2 sid of
              Inl err \<Rightarrow> (Failed err, d2)
            | Inr s \<Rightarrow>
                (case update_totals s d2 of
                   (Inl err, d3) \<Rightarrow> (Failed err, d3)
                 | (Inr x, d3) \<Rightarrow> (Success, d3))))"
    by (rule mark_paid_permitted)
  have stored: "get_expense_or_404 d2 key (hub_id_of request) = Inr (?paid expense)"
    using assms(1) rows by (rule get_expense_or_404_after) simp_all
  show "\<exists>d'. expense_mark_paid request key now d =
                  (if supplier_known d expense then Success else Failed DoesNotExist, d') \<and>
                get_expense_or_404 d' key (hub_id_of request) =
                  Inr (expense\<lparr>status := ''paid'', paid_at := Some now\<rparr>)"
  proof (cases "supplier_id expense")
    case None
    with res stored show ?thesis by (simp add: supplier_known_def)
  next
    case (Some sid)
    show ?thesis
    proof (cases "sid \<in> set (map pk (suppliers d))")
      case False
      then have "get_supplier d2 sid = Inl DoesNotExist"
        using sup by (simp add: get_supplier_missing)
      with res stored Some False show ?thesis by (simp add: supplier_known_def)
    next
      case True
      then obtain s where s: "get_supplier d2 sid = Inr s"
        using get_supplier_known [of sid d2] sup by auto
      have "pk s \<in> set (map pk (suppliers d2))"
        using get_supplier_found(2) [OF s] by simp
      from update_totals_result [OF this]
      obtain s' d3 where u: "update_totals s d2 = (Inr s', d3)" and e: "expenses d3 = expenses d2"
        by simp
      have "get_expense_or_404 d3 key (hub_id_of request) = Inr (?paid expense)"
        using stored get_expense_or_404_rows [OF e] by simp
      moreover have "expense_mark_paid request key now d = (Success, d3)"
        using res Some s u by simp
      ultimately show ?thesis using Some True by (simp add: supplier_known_def)
    qed
  qed
qed

text \<open>
  With approval required above 500, the draft expense of total 121 is marked paid. With the
  threshold zero the same request is declined.
\<close>

lemma find_paper_strict:
  "get_expense_or_404 db_strict_500 1 (hub_id_of clerk) = Inr paper_saved"
  "get_expense_or_404 db_strict_all 1 (hub_id_of clerk) = Inr paper_saved"
  by (simp_all add: get_expense_or_404_def objects_def hub_id_of_def clerk_def db_strict_500_def
      db_strict_all_def db_with_paper_def paper_saved_def paper_def)

lemma settings_strict:
  "get_settings db_strict_500 (hub_id paper_saved) = Inr (strict_500, db_strict_500)"
  "get_settings db_strict_all (hub_id paper_saved) = Inr (strict_all, db_strict_all)"
  by (simp_all add: get_settings_def db_strict_500_def db_strict_all_def strict_500_def
      strict_all_def default_settings_def paper_saved_def paper_def)

theorem mark_paid_gate_witness:
  "get_expense_or_404 db_strict_500 1 (hub_id_of clerk) = Inr paper_saved \<and>
   get_settings db_strict_500 (hub_id paper_saved) = Inr (strict_500, db_strict_500) \<and>
   require_approval strict_500 \<and> approval_threshold strict_500 = 500 \<and>
   status paper_saved = ''draft'' \<and> total_amount paper_saved = 121 \<and>
   (\<exists>d'. expense_mark_paid clerk 1 jan5 db_strict_500 = (Success, d') \<and>
         get_expense_or_404 d' 1 (hub_id_of clerk) =
           Inr (paper_saved\<lparr>status := ''paid'', paid_at := Some jan5\<rparr>)) \<and>
   get_expense_or_404 db_strict_all 1 (hub_id_of clerk) = Inr paper_saved \<and>
   get_settings db_strict_all (hub_id paper_saved) = Inr (strict_all, db_strict_all) \<and>
   require_approval strict_all \<and> approval_threshold strict_all = 0 \<and>
   expense_mark_paid clerk 1 jan5 db_strict_all =
     (Declined ''This expense requires approval before it can be marked as paid.'', db_strict_all)"
proof -
  have v: "require_approval strict_500" "approval_threshold strict_500 = 500"
    "require_approval strict_all" "approval_threshold strict_all = 0"
    "status paper_saved = ''draft''" "total_amount paper_saved = 121"
    by (simp_all add: strict_500_def strict_all_def paper_saved_def paper_def)
  have k: "supplier_known db_strict_500 paper_saved"
    by (simp add: supplier_known_def db_strict_500_def db_with_paper_def empty_db_def acme_def
        paper_saved_def paper_def)
  have pass: "\<not> (require_approval strict_500 \<and> status paper_saved \<noteq> ''approved'' \<and>
      (approval_threshold strict_500 < total_amount paper_saved \<or> approval_threshold strict_500 = 0))"
    by (simp add: v)
  have gate: "require_approval strict_all \<and> status paper_saved \<noteq> ''approved'' \<and>
      (approval_threshold strict_all < total_amount paper_saved \<or> approval_threshold strict_all = 0)"
    by (simp add: v)
  from mark_paid_gate [OF find_paper_strict(1) settings_strict(1), of jan5] pass
  have "\<exists>d'. expense_mark_paid clerk 1 jan5 db_strict_500 =
                  (if supplier_known db_strict_500 paper_saved then Success else Failed DoesNotExist, d') \<and>
         get_expense_or_404 d' 1 (hub_id_of clerk) =
           Inr (paper_saved\<lparr>status := ''paid'', paid_at := Some jan5\<rparr>)"
    by blast
  then have a: "\<exists>d'. expense_mark_paid clerk 1 jan5 db_strict_500 = (Success, d') \<and>
         get_expense_or_404 d' 1 (hub_id_of clerk) =
           Inr (paper_saved\<lparr>status := ''paid'', paid_at := Some jan5\<rparr>)"
    unfolding if_P [OF k] .
  from mark_paid_gate [OF find_paper_strict(2) settings_strict(2), of jan5] gate
  have b: "expense_mark_paid clerk 1 jan5 db_strict_all =
     (Declined ''This expense requires approval before it can be marked as paid.'', db_strict_all)"
    by blast
  from find_paper_strict settings_strict v a b show ?thesis by blast
qed

lemma mark_paid_declined:
  assumes "get_expense_or_404 d key (hub_id_of request) = Inr expense"
    and "get_settings d (hub_id expense) = Inr (settings, d1)"
    and "require_approval settings \<and> status expense \<noteq> ''approved'' \<and>
            (approval_threshold settings < total_amount expense \<or> approval_threshold settings = 0)"
  shows "expense_mark_paid request key now d =
      (Declined ''This expense requires approval before it can be marked as paid.'', d1)"
proof -
  from assms(3)
  have gate: "(require_approval settings \<and> status expense \<notin> set [''approved''] \<and>
          (approval_threshold settings < total_amount expense \<or>
           approval_threshold settings = 0)) = True"
    by simp
  show ?thesis
    unfolding expense_mark_paid_def Let_def assms(1,2) sum.case prod.case gate if_True ..
qed

text \<open>
  C7. The recomputation of a supplier that has a row sets \<open>total_spent\<close> to the sum of
  \<open>total_amount\<close> over the supplier's expenses that are not deleted and have the status
  \<open>paid\<close>, and \<open>last_purchase_date\<close> to the latest \<open>expense_date\<close> among them (to nothing
  when there are none); it writes both onto the supplier's row and leaves the expenses
  alone. A successful \<open>mark_paid\<close> of an expense with a supplier runs it: afterwards the
  supplier's row holds that sum and that date over the expenses as they are then stored.
\<close>

theorem supplier_totals_recomputed:
  "(pk self \<in> set (map pk (suppliers d)) \<longrightarrow>
      (\<exists>self' d'. update_totals self d = (Inr self', d') \<and>
         total_spent self' = sum_list (map total_amount (paid_expenses_of d (pk self))) \<and>
         latest_of (map expense_date (paid_expenses_of d (pk self))) (last_purchase_date self') \<and>
         expenses d' = expenses d \<and>
         list_all (\<lambda>row. pk row \<noteq> pk self \<or>
                    (total_spent row = total_spent self' \<and>
                     last_purchase_date row = last_purchase_date self')) (suppliers d'))) \<and>
   (get_expense_or_404 d0 key (hub_id_of request) = Inr expense \<and> supplier_id expense = Some sid \<and>
    expense_mark_paid request key now d0 = (Success, d1) \<longrightarrow>
      (\<exists>s. get_supplier d1 sid = Inr s \<and>
         total_spent s = sum_list (map total_amount (paid_expenses_of d1 sid)) \<and>
         latest_of (map expense_date (paid_expenses_of d1 sid)) (last_purchase_date s)))"
proof (intro conjI impI)
  assume row: "pk self \<in> set (map pk (suppliers d))"
  let ?spent = "sum_list (map total_amount (paid_expenses_of d (pk self)))"
  let ?latest = "max_date (map expense_date (paid_expenses_of d (pk self)))"
  let ?self' = "self\<lparr>total_spent := ?spent, last_purchase_date := ?latest\<rparr>"
  let ?d' = "d\<lparr>suppliers := map (\<lambda>row. if pk row = pk self
         then row\<lparr>total_spent := ?spent, last_purchase_date := ?latest\<rparr> else row) (suppliers d)\<rparr>"
  have u: "update_totals self d = (Inr ?self', ?d')" using row by (rule update_totals_result)
  have "total_spent ?self' = ?spent" by simp
  moreover have "latest_of (map expense_date (paid_expenses_of d (pk self))) (last_purchase_date ?self')"
    by (simp add: max_date_latest)
  moreover have "expenses ?d' = expenses d" by simp
  moreover have "list_all (\<lambda>row. pk row \<noteq> pk self \<or>
                    (total_spent row = total_spent ?self' \<and>
                     last_purchase_date row = last_purchase_date ?self')) (suppliers ?d')"
    by (auto simp: list_all_iff)
  ultimately show "\<exists>self' d'. update_totals self d = (Inr self', d') \<and>
         total_spent self' = sum_list (map total_amount (paid_expenses_of d (pk self))) \<and>
         latest_of (map expense_date (paid_expenses_of d (pk self))) (last_purchase_date self') \<and>
         expenses d' = expenses d \<and>
         list_all (\<lambda>row. pk row \<noteq> pk self \<or>
                    (total_spent row = total_spent self' \<and>
                     last_purchase_date row = last_purchase_date self')) (suppliers d')"
    using u by blast
next
  assume a: "get_expense_or_404 d0 key (hub_id_of request) = Inr expense \<and>
    supplier_id expense = Some sid \<and> expense_mark_paid request key now d0 = (Success, d1)"
  then have found: "get_expense_or_404 d0 key (hub_id_of request) = Inr expense"
    and sid: "supplier_id expense = Some sid"
    and ok: "expense_mark_paid request key now d0 = (Success, d1)"
    by blast+
  show "\<exists>s. get_supplier d1 sid = Inr s \<and>
         total_spent s = sum_list (map total_amount (paid_expenses_of d1 sid)) \<and>
         latest_of (map expense_date (paid_expenses_of d1 sid)) (last_purchase_date s)"
  proof (cases "get_settings d0 (hub_id expense)")
    case (Inl err)
    have "expense_mark_paid request key now d0 = (Failed err, d0)"
      unfolding expense_mark_paid_def Let_def found Inl sum.case ..
    with ok show ?thesis by simp
  next
    case (Inr p)
    obtain settings d' where p: "p = (settings, d')" by (cases p)
    have settings: "get_settings d0 (hub_id expense) = Inr (settings, d')" using Inr p by simp
    show ?thesis
    proof (cases "require_approval settings \<and> status expense \<noteq> ''approved'' \<and>
            (approval_threshold settings < total_amount expense \<or> approval_threshold settings = 0)")
      case True
      with found settings
      have "expense_mark_paid request key now d0 =
        (Declined ''This expense requires approval before it can be marked as paid.'', d')"
        by (rule mark_paid_declined)
      with ok show ?thesis by simp
    next
      case False
      from found settings False obtain d2 where
        res: "expense_mark_paid request key now d0 =
          (case supplier_id expense of
             None \<Rightarrow> (Success, d2)
           | Some sid \<Rightarrow>
               (case get_supplier d2 sid of
                  Inl err \<Rightarrow> (Failed err, d2)
                | Inr s \<Rightarrow>
                    (case update_totals s d2 of
                       (Inl err, d3) \<Rightarrow> (Failed err, d3)
                     | (Inr x, d3) \<Rightarrow> (Success, d3))))"
        by (rule mark_paid_permitted [where now = now]) blast
      show ?thesis
      proof (cases "get_supplier d2 sid")
        case (Inl err)
        with res sid ok show ?thesis by simp
      next
        case (Inr s)
        have pk: "pk s = sid" and "s \<in> set (suppliers d2)"
          using get_supplier_found [OF Inr] .
        then have row: "pk s \<in> set (map pk (suppliers d2))" by force
        let ?spent = "sum_list (map total_amount (paid_expenses_of d2 (pk s)))"
        let ?latest = "max_date (map expense_date (paid_expenses_of d2 (pk s)))"
        let ?g = "\<lambda>row. row\<lparr>total_spent := ?spent, last_purchase_date := ?latest\<rparr>"
        let ?d3 = "d2\<lparr>suppliers := map (\<lambda>row. if pk row = pk s then ?g row else row) (suppliers d2)\<rparr>"
        have u: "update_totals s d2 = (Inr (?g s), ?d3)" using row by (rule update_totals_result)
        have "expense_mark_paid request key now d0 = (Success, ?d3)"
          using res sid Inr u by simp
        with ok have d1: "d1 = ?d3" by simp
        have "suppliers ?d3 = map (\<lambda>row. if pk row = sid then ?g row else row) (suppliers d2)"
          using pk by simp
        with Inr have "get_supplier ?d3 sid = Inr (?g s)"
          by (rule get_supplier_after) simp
        moreover have "paid_expenses_of ?d3 sid = paid_expenses_of d2 (pk s)"
          using pk by (simp add: paid_expenses_of_def)
        ultimately show ?thesis
          unfolding d1 by (simp add: max_date_latest)
      qed
    qed
  qed
qed

text \<open>
  The expense of 100 at 21 percent, dated 4 January, is the first of its supplier to be
  marked paid: the supplier's total becomes 121 and its last purchase date 4 January.
\<close>

lemma pay_paper: "expense_mark_paid clerk 1 jan5 db_with_paper = (Success, db_paper_paid)"
  by (simp add: expense_mark_paid_def get_expense_or_404_def hub_id_of_def clerk_def
      get_supplier_def update_totals_def sum_total_amount_def base_save_supplier_totals_def
      date_le_def eval_save eval_decimal db_with_paper_def db_paper_paid_def empty_db_def
      paper_paid_def paper_saved_def paper_def acme_def)

theorem supplier_totals_recomputed_witness:
  "get_expense_or_404 db_with_paper 1 (hub_id_of clerk) = Inr paper_saved \<and>
   supplier_id paper_saved = Some 3 \<and> amount paper_saved = 100 \<and> tax_rate paper_saved = 21 \<and>
   expense_date paper_saved = \<lparr>year = 2024, month = 1, day = 4\<rparr> \<and>
   paid_expenses_of db_with_paper 3 = [] \<and>
   expense_mark_paid clerk 1 jan5 db_with_paper = (Success, db_paper_paid) \<and>
   (\<exists>s. get_supplier db_paper_paid 3 = Inr s \<and>
      total_spent s = sum_list (map total_amount (paid_expenses_of db_paper_paid 3)) \<and>
      latest_of (map expense_date (paid_expenses_of db_paper_paid 3)) (last_purchase_date s) \<and>
      total_spent s = 121 \<and>
      last_purchase_date s = Some \<lparr>year = 2024, month = 1, day = 4\<rparr>)"
proof -
  have v: "supplier_id paper_saved = Some 3" "amount paper_saved = 100" "tax_rate paper_saved = 21"
    "expense_date paper_saved = \<lparr>year = 2024, month = 1, day = 4\<rparr>"
    "paid_expenses_of db_with_paper 3 = []"
    by (simp_all add: paid_expenses_of_def db_with_paper_def paper_saved_def paper_def)
  have g: "get_supplier db_paper_paid 3 =
      Inr (acme\<lparr>total_spent := 121, last_purchase_date := Some \<lparr>year = 2024, month = 1, day = 4\<rparr>\<rparr>)"
    by (simp add: get_supplier_def all_objects_def db_paper_paid_def acme_def)
  from supplier_totals_recomputed [where ?d0.0 = db_with_paper and key = 1 and request = clerk
      and expense = paper_saved and sid = 3 and now = jan5 and ?d1.0 = db_paper_paid]
    find_paper v(1) pay_paper
  have "\<exists>s. get_supplier db_paper_paid 3 = Inr s \<and>
      total_spent s = sum_list (map total_amount (paid_expenses_of db_paper_paid 3)) \<and>
      latest_of (map expense_date (paid_expenses_of db_paper_paid 3)) (last_purchase_date s)"
    by blast
  then have "\<exists>s. get_supplier db_paper_paid 3 = Inr s \<and>
      total_spent s = sum_list (map total_amount (paid_expenses_of db_paper_paid 3)) \<and>
      latest_of (map expense_date (paid_expenses_of db_paper_paid 3)) (last_purchase_date s) \<and>
      total_spent s = 121 \<and>
      last_purchase_date s = Some \<lparr>year = 2024, month = 1, day = 4\<rparr>"
    unfolding g by simp
  with find_paper v pay_paper show ?thesis by blast
qed

section \<open>The number generated\<close>

subsection \<open>The expense that the query selects\<close>

lemma sorted_le_last: "sorted zs \<Longrightarrow> x \<in> set zs \<Longrightarrow> x \<le> last zs"
  by (induction zs) auto

lemma first_order_by_desc:
  assumes "rows \<noteq> []"
  shows "\<exists>e. first (order_by_expense_number_desc rows) = Some e \<and> e \<in> set rows \<and>
    (\<forall>x\<in>set rows. expense_number x \<le> expense_number e)"
proof -
  let ?ys = "sort_key expense_number rows"
  have ne: "?ys \<noteq> []" using assms by (metis length_0_conv length_sort)
  then have r: "rev ?ys = last ?ys # rev (butlast ?ys)"
    by (metis append_butlast_last_id rev.simps(2) rev_append rev_singleton_conv append_Cons append_Nil)
  have 1: "first (order_by_expense_number_desc rows) = Some (last ?ys)"
    by (simp add: first_def order_by_expense_number_desc_def r)
  have 2: "last ?ys \<in> set rows" using last_in_set [OF ne] by simp
  have 3: "expense_number x \<le> expense_number (last ?ys)" if "x \<in> set rows" for x
  proof -
    have "expense_number x \<in> set (map expense_number ?ys)" using that by simp
    then have "expense_number x \<le> last (map expense_number ?ys)"
      by (rule sorted_le_last [OF sorted_sort_key])
    then show ?thesis using ne by (simp add: last_map)
  qed
  from 1 2 3 show ?thesis by blast
qed

lemma first_order_by_desc_none: "first (order_by_expense_number_desc []) = None"
  by (simp add: first_def order_by_expense_number_desc_def)

text \<open>The number generated, from the greatest of the numbers that start with the key.\<close>

lemma generate_expense_number_none:
  assumes "numbers_with_key d hub (period_key prefix today) = []"
  shows "generate_expense_number d hub prefix today = period_key prefix today @ ''-'' @ format_04d 1"
proof -
  have "filter (\<lambda>e. hub_id e = hub \<and> startswith (expense_number e) (prefix @ ''-'' @ strftime_Ymd today))
          (expenses d) = []"
    using assms by (simp add: numbers_with_key_def period_key_def)
  then show ?thesis
    by (simp add: generate_expense_number_def Let_def all_objects_def first_order_by_desc_none
        period_key_def)
qed

lemma generate_expense_number_greatest:
  assumes "n \<in> set (numbers_with_key d hub (period_key prefix today))"
    and "\<And>m. m \<in> set (numbers_with_key d hub (period_key prefix today)) \<Longrightarrow> m \<le> n"
  shows "generate_expense_number d hub prefix today =
    period_key prefix today @ ''-'' @
      format_04d (case last_number n of Inr last_num \<Rightarrow> last_num + 1 | Inl err \<Rightarrow> 1)"
proof -
  let ?rows = "filter (\<lambda>e. hub_id e = hub \<and>
      startswith (expense_number e) (prefix @ ''-'' @ strftime_Ymd today)) (expenses d)"
  have nums: "numbers_with_key d hub (period_key prefix today) = map expense_number ?rows"
    by (simp add: numbers_with_key_def period_key_def)
  have "?rows \<noteq> []"
  proof
    assume "?rows = []"
    then have "numbers_with_key d hub (period_key prefix today) = []"
      unfolding nums by (simp only: list.map)
    with assms(1) show False by simp
  qed
  then obtain e where e: "first (order_by_expense_number_desc ?rows) = Some e"
    and mem: "e \<in> set ?rows"
    and top: "\<forall>x\<in>set ?rows. expense_number x \<le> expense_number e"
    using first_order_by_desc [of ?rows] by blast
  have "expense_number e \<le> n" using assms(2) mem unfolding nums by simp
  moreover have "n \<le> expense_number e" using assms(1) top unfolding nums by auto
  ultimately have "expense_number e = n" by simp
  then show ?thesis
    unfolding generate_expense_number_def Let_def all_objects_def e period_key_def
    by (simp split: sum.splits)
qed

subsection \<open>Numbers with a sequence of digits\<close>

lemma split_not_Nil: "split sep s \<noteq> []"
  by (induction s) (auto split: list.splits)

lemma split_no_sep: "sep \<notin> set ys \<Longrightarrow> split sep ys = [ys]"
  by (induction ys) auto

lemma split_with_sep: "sep \<in> set s \<Longrightarrow> \<exists>w v vs. split sep s = w # v # vs"
proof (induction s)
  case Nil
  then show ?case by simp
next
  case (Cons c cs)
  show ?case
  proof (cases "c = sep")
    case True
    then show ?thesis by (cases "split sep cs") (simp_all add: split_not_Nil)
  next
    case False
    with Cons.prems have "sep \<in> set cs" by simp
    then obtain w v vs where "split sep cs = w # v # vs" using Cons.IH by blast
    with False show ?thesis by simp
  qed
qed

lemma last_split_append: "sep \<notin> set ys \<Longrightarrow> last (split sep (xs @ sep # ys)) = ys"
proof (induction xs)
  case Nil
  then show ?case by (simp add: split_no_sep)
next
  case (Cons x xs)
  obtain w v vs where s: "split sep (xs @ sep # ys) = w # v # vs"
    using split_with_sep [of sep "xs @ sep # ys"] by auto
  with Cons show ?case by simp
qed

lemma is_digit_cases:
  "is_digit c \<longleftrightarrow> c = CHR ''0'' \<or> c = CHR ''1'' \<or> c = CHR ''2'' \<or> c = CHR ''3'' \<or> c = CHR ''4'' \<or>
     c = CHR ''5'' \<or> c = CHR ''6'' \<or> c = CHR ''7'' \<or> c = CHR ''8'' \<or> c = CHR ''9''"
  by (auto simp: is_digit_def)

lemma digit_not_other:
  assumes "is_digit c"
  shows "\<not> is_space c" "c \<noteq> CHR ''-''" "c \<noteq> CHR ''+''" "c \<noteq> CHR ''_''"
  using assms by (auto simp: is_digit_cases is_space_def)

lemma digit_value_le: "is_digit c \<Longrightarrow> digit_value c \<le> 9"
  by (auto simp: is_digit_cases digit_value_def)

lemma digit_code_ge: "is_digit c \<Longrightarrow> (48::nat) \<le> of_char c"
  by (auto simp: is_digit_cases)

lemma digit_value_mono:
  assumes "is_digit c" and "is_digit c'" and "c < c'"
  shows "digit_value c < digit_value c'"
proof -
  have "(of_char c :: nat) < of_char c'" using assms(3) by (simp add: less_char_def)
  with digit_code_ge [OF assms(1)] digit_code_ge [OF assms(2)] show ?thesis
    by (simp add: digit_value_def)
qed

lemma int_digits_all:
  "list_all is_digit ds \<Longrightarrow> int_digits acc ds = Inr (foldl (\<lambda>a c. 10 * a + digit_value c) acc ds)"
  by (induction acc ds rule: int_digits.induct) simp_all

lemma strip_digits:
  assumes "list_all is_digit ds"
  shows "strip ds = ds"
proof (cases ds rule: rev_cases)
  case Nil
  then show ?thesis by (simp add: strip_def)
next
  case (snoc ys y)
  have front: "dropWhile is_space ds = ds"
    using assms by (cases ds) (simp_all add: digit_not_other)
  have "\<not> is_space y" using assms snoc by (simp add: digit_not_other)
  then show ?thesis by (simp add: strip_def front) (simp add: snoc)
qed

lemma py_int_digits:
  assumes "list_all is_digit ds" and "ds \<noteq> []"
  shows "py_int ds = Inr (int (decimal_value ds))"
proof -
  obtain c cs where ds: "ds = c # cs" using assms(2) by (cases ds) simp_all
  have c: "is_digit c" and cs: "list_all is_digit cs" using assms(1) ds by simp_all
  have "int_literal (c # cs) = Inr (decimal_value (c # cs))"
    using c by (simp add: int_literal_def int_digits_all [OF cs] decimal_value_def)
  moreover have "strip (c # cs) = c # cs" using strip_digits [OF assms(1)] by (simp only: ds)
  ultimately show ?thesis
    using c by (simp add: py_int_def ds digit_not_other)
qed

lemma last_number_digits:
  assumes "list_all is_digit ds" and "ds \<noteq> []"
  shows "last_number (key @ ''-'' @ ds) = Inr (int (decimal_value ds))"
proof -
  have "CHR ''-'' \<notin> set ds"
    using assms(1) digit_not_other(2) by (auto simp: list_all_iff)
  then have "last (split CHR ''-'' (key @ CHR ''-'' # ds)) = ds" by (rule last_split_append)
  then show ?thesis
    by (cases "split CHR ''-'' (key @ CHR ''-'' # ds)")
      (simp_all add: last_number_def split_not_Nil py_int_digits [OF assms])
qed

subsection \<open>String order and numeric order\<close>

lemma foldl_decimal:
  "foldl (\<lambda>a c. 10 * a + digit_value c) acc ds = acc * 10 ^ length ds + decimal_value ds"
proof (induction ds arbitrary: acc)
  case Nil
  then show ?case by (simp add: decimal_value_def)
next
  case (Cons c cs)
  have "decimal_value (c # cs) = digit_value c * 10 ^ length cs + decimal_value cs"
    using Cons [of "digit_value c"] by (simp add: decimal_value_def)
  then show ?case using Cons [of "10 * acc + digit_value c"] by (simp add: algebra_simps)
qed

lemma decimal_value_Cons:
  "decimal_value (c # cs) = digit_value c * 10 ^ length cs + decimal_value cs"
  using foldl_decimal [of "digit_value c" cs] by (simp add: decimal_value_def)

lemma decimal_value_less: "list_all is_digit ds \<Longrightarrow> decimal_value ds < 10 ^ length ds"
proof (induction ds)
  case Nil
  then show ?case by (simp add: decimal_value_def)
next
  case (Cons c cs)
  then have "digit_value c \<le> 9" and "decimal_value cs < 10 ^ length cs"
    by (simp_all add: digit_value_le)
  then have "digit_value c * 10 ^ length cs + decimal_value cs < 9 * 10 ^ length cs + 10 ^ length cs"
    by (meson add_le_less_mono mult_le_mono1)
  then show ?case by (simp add: decimal_value_Cons)
qed

text \<open>Between texts of digits of one length, the order of the strings is that of the values.\<close>

lemma digits_le_value:
  assumes "length ds = length ds'" and "list_all is_digit ds" and "list_all is_digit ds'"
    and "ds \<le> ds'"
  shows "decimal_value ds \<le> decimal_value ds'"
  using assms
proof (induction ds ds' rule: list_induct2)
  case Nil
  then show ?case by simp
next
  case (Cons c cs c' cs')
  from Cons.prems(3) have "c < c' \<or> (c = c' \<and> cs \<le> cs')" by simp
  then show ?case
  proof
    assume "c < c'"
    then have "digit_value c + 1 \<le> digit_value c'"
      using digit_value_mono [of c c'] Cons.prems(1,2) by simp
    then have "(digit_value c + 1) * 10 ^ length cs \<le> digit_value c' * 10 ^ length cs"
      by (rule mult_le_mono1)
    then have "digit_value c * 10 ^ length cs + 10 ^ length cs \<le> digit_value c' * 10 ^ length cs'"
      using Cons.hyps by (simp add: algebra_simps)
    moreover have "decimal_value cs < 10 ^ length cs"
      using Cons.prems(1) by (simp add: decimal_value_less)
    ultimately show ?thesis by (simp add: decimal_value_Cons)
  next
    assume "c = c' \<and> cs \<le> cs'"
    then have "decimal_value cs \<le> decimal_value cs'" and "c = c'"
      using Cons.IH Cons.prems(1,2) by simp_all
    then show ?thesis using Cons.hyps by (simp add: decimal_value_Cons)
  qed
qed

lemma append_le_append: "(xs @ ys \<le> xs @ zs) = (ys \<le> (zs :: 'a :: linorder list))"
  by (induction xs) simp_all

lemma four_digit_sequence_shape:
  assumes "four_digit_sequence key number"
  obtains ds where "number = key @ ''-'' @ ds" and "length ds = 4" and "list_all is_digit ds"
    and "sequence_of key number = decimal_value ds"
proof -
  let ?ds = "drop (length key + 1) number"
  have t: "take (length key + 1) number = key @ ''-''"
    using assms by (simp add: four_digit_sequence_def)
  have "number = take (length key + 1) number @ ?ds" by simp
  then have "number = (key @ ''-'') @ ?ds" by (simp only: t)
  then have "number = key @ ''-'' @ ?ds" by simp
  moreover have "length ?ds = 4" using assms by (simp add: four_digit_sequence_def)
  moreover have "list_all is_digit ?ds" using assms by (simp add: four_digit_sequence_def)
  moreover have "sequence_of key number = decimal_value ?ds" by (simp add: sequence_of_def)
  ultimately show ?thesis by (rule that)
qed

lemma four_digit_last_number:
  assumes "four_digit_sequence key number"
  shows "last_number number = Inr (int (sequence_of key number))"
proof -
  from assms obtain ds where n: "number = key @ ''-'' @ ds" and l: "length ds = 4"
    and d: "list_all is_digit ds" and s: "sequence_of key number = decimal_value ds"
    by (rule four_digit_sequence_shape)
  from l have "ds \<noteq> []" by auto
  with d have "last_number (key @ ''-'' @ ds) = Inr (int (decimal_value ds))"
    by (rule last_number_digits)
  then show ?thesis by (simp add: n sequence_of_def)
qed

lemma four_digit_order:
  assumes "four_digit_sequence key m" and "four_digit_sequence key n" and "m \<le> n"
  shows "sequence_of key m \<le> sequence_of key n"
proof -
  from assms(1) obtain ds where m: "m = key @ ''-'' @ ds" and l: "length ds = 4"
    and d: "list_all is_digit ds" and s: "sequence_of key m = decimal_value ds"
    by (rule four_digit_sequence_shape)
  from assms(2) obtain ds' where n: "n = key @ ''-'' @ ds'" and l': "length ds' = 4"
    and d': "list_all is_digit ds'" and s': "sequence_of key n = decimal_value ds'"
    by (rule four_digit_sequence_shape)
  have "(key @ ''-'') @ ds \<le> (key @ ''-'') @ ds'" using assms(3) m n by simp
  then have "ds \<le> ds'" by (simp only: append_le_append)
  with l l' d d' have "decimal_value ds \<le> decimal_value ds'"
    by (intro digits_le_value) simp_all
  then show ?thesis by (simp add: s s')
qed

subsection \<open>The generated number\<close>

lemmas eval_int = last_number_def py_int_def strip_def int_literal_def is_space_def is_digit_def
  digit_value_def

lemmas eval_generate = generate_expense_number_def all_objects_def first_def
  order_by_expense_number_desc_def numbers_with_key_def period_key_def

text \<open>
  What the code generates. For every tenant, prefix and date the number is
  \<open>{prefix}-{YYYYMMDD}-{seq:04d}\<close>, where \<open>seq\<close> is 1 when no expense number of the tenant
  (deleted expenses included) starts with the key \<open>{prefix}-{YYYYMMDD}\<close>; otherwise \<open>seq\<close> is
  one plus the integer after the final dash of the number that is greatest, in the order
  of strings, among those that start with the key, and 1 when that part does not parse as
  an integer. As long as all these numbers are the key, a dash and a sequence of four
  digits, that is one plus the highest sequence.
\<close>

lemma generated_number_from_greatest:
  "(numbers_with_key d hub (period_key prefix today) = [] \<longrightarrow>
      generate_expense_number d hub prefix today = period_key prefix today @ ''-0001'') \<and>
   (n \<in> set (numbers_with_key d hub (period_key prefix today)) \<and>
    list_all (\<lambda>m. m \<le> n) (numbers_with_key d hub (period_key prefix today)) \<longrightarrow>
      generate_expense_number d hub prefix today =
        period_key prefix today @ ''-'' @
          format_04d (case last_number n of Inr last_num \<Rightarrow> last_num + 1 | Inl err \<Rightarrow> 1)) \<and>
   (numbers_with_key d hub (period_key prefix today) \<noteq> [] \<and>
    list_all (four_digit_sequence (period_key prefix today))
      (numbers_with_key d hub (period_key prefix today)) \<longrightarrow>
      (\<exists>top\<in>set (numbers_with_key d hub (period_key prefix today)).
         list_all (\<lambda>m. sequence_of (period_key prefix today) m \<le>
                        sequence_of (period_key prefix today) top)
           (numbers_with_key d hub (period_key prefix today)) \<and>
         generate_expense_number d hub prefix today =
           period_key prefix today @ ''-'' @
             format_04d (int (sequence_of (period_key prefix today) top) + 1)))"
proof (intro conjI impI)
  let ?key = "period_key prefix today"
  let ?numbers = "numbers_with_key d hub ?key"
  {
    assume "?numbers = []"
    then have "generate_expense_number d hub prefix today = ?key @ ''-'' @ format_04d 1"
      by (rule generate_expense_number_none)
    then show "generate_expense_number d hub prefix today = ?key @ ''-0001''"
      by (simp add: eval_string)
  next
    assume a: "n \<in> set ?numbers \<and> list_all (\<lambda>m. m \<le> n) ?numbers"
    then have "n \<in> set ?numbers" and "\<And>m. m \<in> set ?numbers \<Longrightarrow> m \<le> n"
      by (simp_all add: list_all_iff)
    then show "generate_expense_number d hub prefix today =
        ?key @ ''-'' @ format_04d (case last_number n of Inr last_num \<Rightarrow> last_num + 1 | Inl err \<Rightarrow> 1)"
      by (rule generate_expense_number_greatest)
  next
    assume b: "?numbers \<noteq> [] \<and> list_all (four_digit_sequence ?key) ?numbers"
    define top where "top = Max (set ?numbers)"
    have ne: "set ?numbers \<noteq> {}" using b by simp
    have top: "top \<in> set ?numbers" unfolding top_def using ne by (intro Max_in) simp_all
    have le: "m \<le> top" if "m \<in> set ?numbers" for m
      unfolding top_def using that by (intro Max_ge) simp_all
    have four: "four_digit_sequence ?key m" if "m \<in> set ?numbers" for m
      using b that by (simp add: list_all_iff)
    have "generate_expense_number d hub prefix today =
        ?key @ ''-'' @ format_04d (case last_number top of Inr last_num \<Rightarrow> last_num + 1 | Inl err \<Rightarrow> 1)"
      using top le by (rule generate_expense_number_greatest)
    then have g: "generate_expense_number d hub prefix today =
        ?key @ ''-'' @ format_04d (int (sequence_of ?key top) + 1)"
      by (simp add: four_digit_last_number [OF four [OF top]])
    have "sequence_of ?key m \<le> sequence_of ?key top" if "m \<in> set ?numbers" for m
      using four [OF that] four [OF top] le [OF that] by (rule four_digit_order)
    then have "list_all (\<lambda>m. sequence_of ?key m \<le> sequence_of ?key top) ?numbers"
      by (simp add: list_all_iff)
    with top g show "\<exists>top\<in>set ?numbers.
         list_all (\<lambda>m. sequence_of ?key m \<le> sequence_of ?key top) ?numbers \<and>
         generate_expense_number d hub prefix today =
           ?key @ ''-'' @ format_04d (int (sequence_of ?key top) + 1)"
      by blast
  }
qed

text \<open>
  On a day without numbers the first is \<open>EXP-20240105-0001\<close>; after \<open>0001\<close> and \<open>0002\<close>
  comes \<open>0003\<close>; after \<open>0007\<close> and \<open>x1\<close>, which is the greater string and no integer, comes
  \<open>0001\<close>.
\<close>

lemma numbers_of_examples:
  "numbers_with_key empty_db 7 (period_key ''EXP'' jan5) = []"
  "numbers_with_key db_two 7 (period_key ''EXP'' jan5) = [''EXP-20240105-0001'', ''EXP-20240105-0002'']"
  "numbers_with_key db_odd 7 (period_key ''EXP'' jan5) = [''EXP-20240105-0007'', ''EXP-20240105-x1'']"
  by (simp_all add: numbers_with_key_def period_key_def eval_string jan5_def empty_db_def
      db_two_def db_odd_def numbered_def paper_def)

lemma key_of_example: "period_key ''EXP'' jan5 = ''EXP-20240105''"
  by (simp add: period_key_def eval_string jan5_def)

lemma generated_number_examples:
  "numbers_with_key empty_db 7 (period_key ''EXP'' jan5) = [] \<and>
   generate_expense_number empty_db 7 ''EXP'' jan5 = ''EXP-20240105-0001'' \<and>
   numbers_with_key db_odd 7 (period_key ''EXP'' jan5) = [''EXP-20240105-0007'', ''EXP-20240105-x1''] \<and>
   ''EXP-20240105-0007'' \<le> ''EXP-20240105-x1'' \<and>
   last_number ''EXP-20240105-x1'' = Inl ValueError \<and>
   generate_expense_number db_odd 7 ''EXP'' jan5 = ''EXP-20240105-0001'' \<and>
   numbers_with_key db_two 7 (period_key ''EXP'' jan5) = [''EXP-20240105-0001'', ''EXP-20240105-0002''] \<and>
   list_all (four_digit_sequence ''EXP-20240105'') [''EXP-20240105-0001'', ''EXP-20240105-0002''] \<and>
   sequence_of ''EXP-20240105'' ''EXP-20240105-0001'' = 1 \<and>
   sequence_of ''EXP-20240105'' ''EXP-20240105-0002'' = 2 \<and>
   generate_expense_number db_two 7 ''EXP'' jan5 = ''EXP-20240105-0003''"
proof -
  note n = numbers_of_examples
  note key = key_of_example
  note n' = numbers_of_examples [unfolded key_of_example]
  have k: "period_key ''EXP'' jan5 @ ''-0001'' = ''EXP-20240105-0001''" by (simp add: key)
  have a: "generate_expense_number empty_db 7 ''EXP'' jan5 = ''EXP-20240105-0001''"
    using generated_number_from_greatest [where d = empty_db and hub = 7 and prefix = "''EXP''"
        and today = jan5] n(1)
    unfolding k by blast
  have o: "''EXP-20240105-0007'' \<le> ''EXP-20240105-x1''" by simp
  have p: "last_number ''EXP-20240105-x1'' = Inl ValueError" by (simp add: eval_int)
  have "''EXP-20240105-x1'' \<in> set (numbers_with_key db_odd 7 (period_key ''EXP'' jan5)) \<and>
    list_all (\<lambda>m. m \<le> ''EXP-20240105-x1'') (numbers_with_key db_odd 7 (period_key ''EXP'' jan5))"
    by (simp add: n)
  with generated_number_from_greatest [where d = db_odd and hub = 7 and prefix = "''EXP''"
        and today = jan5 and n = "''EXP-20240105-x1''"]
  have "generate_expense_number db_odd 7 ''EXP'' jan5 =
      period_key ''EXP'' jan5 @ ''-'' @
        format_04d (case last_number ''EXP-20240105-x1'' of Inr last_num \<Rightarrow> last_num + 1 | Inl err \<Rightarrow> 1)"
    by blast
  then have b: "generate_expense_number db_odd 7 ''EXP'' jan5 = ''EXP-20240105-0001''"
    by (simp add: p key eval_string)
  have f: "list_all (four_digit_sequence ''EXP-20240105'') [''EXP-20240105-0001'', ''EXP-20240105-0002'']"
    by (simp add: four_digit_sequence_def is_digit_def)
  have s: "sequence_of ''EXP-20240105'' ''EXP-20240105-0001'' = 1"
    "sequence_of ''EXP-20240105'' ''EXP-20240105-0002'' = 2"
    by (simp_all add: sequence_of_def decimal_value_def digit_value_def)
  have "numbers_with_key db_two 7 (period_key ''EXP'' jan5) \<noteq> [] \<and>
    list_all (four_digit_sequence (period_key ''EXP'' jan5))
      (numbers_with_key db_two 7 (period_key ''EXP'' jan5))"
    using f by (simp add: n' key)
  with generated_number_from_greatest [where d = db_two and hub = 7 and prefix = "''EXP''"
        and today = jan5]
  have "\<exists>top\<in>set (numbers_with_key db_two 7 (period_key ''EXP'' jan5)).
         list_all (\<lambda>m. sequence_of (period_key ''EXP'' jan5) m \<le>
                        sequence_of (period_key ''EXP'' jan5) top)
           (numbers_with_key db_two 7 (period_key ''EXP'' jan5)) \<and>
         generate_expense_number db_two 7 ''EXP'' jan5 =
           period_key ''EXP'' jan5 @ ''-'' @
             format_04d (int (sequence_of (period_key ''EXP'' jan5) top) + 1)"
    by blast
  then have c: "generate_expense_number db_two 7 ''EXP'' jan5 = ''EXP-20240105-0003''"
    by (auto simp: n' key s eval_string)
  from n a o p b f s c show ?thesis by blast
qed

text \<open>
  C3. For every tenant, prefix and date the generated number should be
  \<open>{prefix}-{YYYYMMDD}-{seq:04d}\<close> with \<open>seq\<close> one plus the trailing integer of the existing
  number of that key with the highest trailing sequence, and so a number that no expense
  has yet. The code does not do that beyond four digits. With the numbers
  \<open>EXP-20240105-9999\<close> and \<open>EXP-20240105-10000\<close> stored for the tenant and the day, the
  trailing integers are 9999 and 10000, the highest is 10000, and the number should be
  \<open>EXP-20240105-10001\<close>. The code takes the number that is greatest as a string, which is
  \<open>EXP-20240105-9999\<close>, and generates \<open>EXP-20240105-10000\<close>, a number that a stored expense
  of the tenant already has.
\<close>

theorem generated_number_not_from_highest_sequence:
  "numbers_with_key db_10000 7 (period_key ''EXP'' jan5) =
     [''EXP-20240105-9999'', ''EXP-20240105-10000''] \<and>
   last_number ''EXP-20240105-9999'' = Inr 9999 \<and>
   last_number ''EXP-20240105-10000'' = Inr 10000 \<and>
   period_key ''EXP'' jan5 @ ''-'' @ format_04d (10000 + 1) = ''EXP-20240105-10001'' \<and>
   generate_expense_number db_10000 7 ''EXP'' jan5 = ''EXP-20240105-10000'' \<and>
   generate_expense_number db_10000 7 ''EXP'' jan5 \<noteq>
     period_key ''EXP'' jan5 @ ''-'' @ format_04d (10000 + 1) \<and>
   generate_expense_number db_10000 7 ''EXP'' jan5 \<in>
     set (numbers_with_key db_10000 7 (period_key ''EXP'' jan5))"
  by (simp add: eval_generate eval_string eval_int jan5_def db_10000_def numbered_def paper_def)

subsection \<open>Two numbers in a row\<close>

text \<open>
  C4. Two expenses created one after the other for one tenant, day and prefix should get
  sequences that differ by one. After the number \<open>9999\<close> they do not: the next expense gets
  \<open>EXP-20240105-10000\<close>, and the one after it the same number again.
\<close>

theorem second_number_after_9999_collides:
  "expense_save (paper\<lparr>pk := 10000\<rparr>) None jan5 db_9999 =
     (Inr (numbered 10000 ''EXP-20240105-10000''), db_10000) \<and>
   expense_save (paper\<lparr>pk := 10001\<rparr>) None jan5 db_10000 =
     (Inr (numbered 10001 ''EXP-20240105-10000''), db_10000_twice) \<and>
   expense_number (numbered 10000 ''EXP-20240105-10000'') =
     expense_number (numbered 10001 ''EXP-20240105-10000'')"
  by (simp add: eval_save eval_string eval_decimal eval_int jan5_def db_9999_def db_10000_def
      db_10000_twice_def numbered_def paper_def empty_db_def)

end
